theory Spec2Isabelle
  imports Main
begin

section \<open>The syntax tree\<close>

text \<open>
  The plugin of \<^verbatim>\<open>src/index.js\<close> works on the syntax tree that Babel hands to it. A node
  is a tagged union; the constructors below are the node types the plugin tests for
  (\<^verbatim>\<open>t.isJSXElement\<close>, \<^verbatim>\<open>t.isJSXFragment\<close>, ...) or builds, and \<open>Other\<close> stands for
  every other node type (program, block, if statement, call, identifier, literal, JSX text,
  spread attribute, ...), holding its type name and its child nodes in traversal order.

  The plugin keeps opening elements in a JavaScript \<^verbatim>\<open>Set\<close>, which compares objects by
  reference. The first field of \<open>JSXElement\<close> is that reference: the identity of the
  element's \<^verbatim>\<open>openingElement\<close> object. The opening element's tag name and attribute list
  follow, then the element's children.
\<close>

datatype attr_name = JSXIdentifier string | JSXNamespacedName string string

datatype node =
    JSXElement nat string "node list" "node list"
  | JSXFragment "node list"
  | JSXExpressionContainer node
  | JSXAttribute attr_name "node option"
  | LogicalExpression string node node
  | ConditionalExpression node node node
  | ReturnStatement "node option"
  | ArrowFunctionExpression "node list" node
  | FunctionExpression "node list" node
  | FunctionDeclaration "node list" node
  | VariableDeclarator node "node option"
  | StringLiteral string
  | Other string "node list"

text \<open>The per-file plugin state: \<^verbatim>\<open>state.topmostElements\<close> and \<^verbatim>\<open>state.filePath\<close>.\<close>

record plugin_state =
  topmostElements :: "nat set"
  filePath :: string

text \<open>
  Inside \<^verbatim>\<open>findTopmostJSX\<close> the closures share the local variable \<^verbatim>\<open>foundTopmost\<close> and
  the plugin state; the pair is threaded through them.
\<close>

type_synonym scan = "bool \<times> plugin_state"

section \<open>Path derivation (\<^verbatim>\<open>Program.enter\<close>)\<close>

text \<open>
  \<^verbatim>\<open>String.prototype.indexOf\<close>: the smallest index at which the search string occurs,
  or \<open>-1\<close>. \<^verbatim>\<open>substring(i)\<close> drops the first \<open>i\<close> characters.
\<close>

fun indexOf :: "string \<Rightarrow> string \<Rightarrow> int" where
  "indexOf [] m = (if m = [] then 0 else - 1)"
| "indexOf (c # s) m =
     (if take (length m) (c # s) = m then 0
      else (let r = indexOf s m in if r = - 1 then - 1 else r + 1))"

definition substring :: "string \<Rightarrow> int \<Rightarrow> string" where
  "substring s i = drop (nat i) s"

text \<open>
  The argument is \<^verbatim>\<open>state.file.opts\<close>: \<open>None\<close> when \<^verbatim>\<open>state.file\<close> or its \<^verbatim>\<open>opts\<close> is
  missing, \<open>Some None\<close> when \<^verbatim>\<open>filename\<close> is undefined, \<open>Some (Some s)\<close> otherwise.
  \<^verbatim>\<open>filename || ''\<close> turns an undefined file name into the empty string.
\<close>

definition Program_enter :: "string option option \<Rightarrow> plugin_state" where
  "Program_enter opts =
     (let st = \<lparr>topmostElements = {}, filePath = []\<rparr> in
      case opts of
        None \<Rightarrow> st
      | Some filename \<Rightarrow>
          (let fp = (case filename of None \<Rightarrow> [] | Some s \<Rightarrow> s);
               srcIndex = indexOf fp ''src/''
           in if srcIndex \<noteq> - 1 then st\<lparr>filePath := substring fp srcIndex\<rparr>
              else st\<lparr>filePath := fp\<rparr>))"

section \<open>Finding the topmost elements (\<^verbatim>\<open>findTopmostJSX\<close>)\<close>

fun extractJSXFromLogicalAnd :: "node \<Rightarrow> node option" where
  "extractJSXFromLogicalAnd (JSXElement i nm as cs) = Some (JSXElement i nm as cs)"
| "extractJSXFromLogicalAnd (LogicalExpression op l r) =
     (if op = ''&&'' then extractJSXFromLogicalAnd r else None)"
| "extractJSXFromLogicalAnd _ = None"

text \<open>
  \<^verbatim>\<open>state.topmostElements.add(x.openingElement)\<close>, with and without
  \<^verbatim>\<open>foundTopmost = true\<close>. A node that is not a \<open>JSXElement\<close> fails the
  \<^verbatim>\<open>t.isJSXElement\<close> test that guards every such statement and changes nothing.
\<close>

definition add :: "nat \<Rightarrow> plugin_state \<Rightarrow> plugin_state" where
  "add i st = st\<lparr>topmostElements := insert i (topmostElements st)\<rparr>"

fun addIfJSXElement :: "node \<Rightarrow> plugin_state \<Rightarrow> plugin_state" where
  "addIfJSXElement (JSXElement i nm as cs) st = add i st"
| "addIfJSXElement _ st = st"

fun tagIfJSXElement :: "node \<Rightarrow> scan \<Rightarrow> scan" where
  "tagIfJSXElement (JSXElement i nm as cs) sc = (True, add i (snd sc))"
| "tagIfJSXElement _ sc = sc"

text \<open>The body of the loop of \<^verbatim>\<open>tagFragmentChildren\<close>, for one child.\<close>

fun tagChildExpression :: "node \<Rightarrow> scan \<Rightarrow> scan" where
  "tagChildExpression (JSXElement i nm as cs) sc = (True, add i (snd sc))"
| "tagChildExpression (LogicalExpression op l r) sc =
     (if op = ''&&'' then
        (case extractJSXFromLogicalAnd (LogicalExpression op l r) of
           Some jsxElement \<Rightarrow> tagIfJSXElement jsxElement sc
         | None \<Rightarrow> sc)
      else sc)"
| "tagChildExpression (ConditionalExpression c consequent alternate) sc =
     tagIfJSXElement alternate (tagIfJSXElement consequent sc)"
| "tagChildExpression _ sc = sc"

fun tagChild :: "node \<Rightarrow> scan \<Rightarrow> scan" where
  "tagChild (JSXElement i nm as cs) sc = (True, add i (snd sc))"
| "tagChild (JSXExpressionContainer expression) sc = tagChildExpression expression sc"
| "tagChild _ sc = sc"

fun tagFragmentChildren :: "node \<Rightarrow> scan \<Rightarrow> scan" where
  "tagFragmentChildren (JSXFragment children) sc = fold tagChild children sc"
| "tagFragmentChildren _ sc = sc"

text \<open>
  The three visitors handed to \<^verbatim>\<open>path.traverse\<close>. The visitors for return statements
  and for arrow functions treat the returned expression alike (\<open>returnSite\<close>): a single
  element, a fragment, or anything else.
\<close>

fun returnSite :: "node \<Rightarrow> scan \<Rightarrow> scan" where
  "returnSite (JSXElement i nm as cs) sc = (True, add i (snd sc))"
| "returnSite (JSXFragment children) sc = tagFragmentChildren (JSXFragment children) sc"
| "returnSite _ sc = sc"

definition ReturnStatement_visitor :: "node option \<Rightarrow> scan \<Rightarrow> scan" where
  "ReturnStatement_visitor argument sc =
     (if fst sc then sc
      else (case argument of None \<Rightarrow> sc | Some a \<Rightarrow> returnSite a sc))"

definition ArrowFunctionExpression_visitor :: "node \<Rightarrow> scan \<Rightarrow> scan" where
  "ArrowFunctionExpression_visitor body sc = (if fst sc then sc else returnSite body sc)"

fun propValue :: "node \<Rightarrow> plugin_state \<Rightarrow> plugin_state" where
  "propValue (JSXElement i nm as cs) st = add i st"
| "propValue (LogicalExpression op l r) st =
     (if op = ''&&'' then
        (case extractJSXFromLogicalAnd (LogicalExpression op l r) of
           Some jsxElement \<Rightarrow> addIfJSXElement jsxElement st
         | None \<Rightarrow> st)
      else st)"
| "propValue (ConditionalExpression c consequent alternate) st =
     addIfJSXElement alternate (addIfJSXElement consequent st)"
| "propValue _ st = st"

fun isJSXAttribute :: "node \<Rightarrow> bool" where
  "isJSXAttribute (JSXAttribute n v) = True"
| "isJSXAttribute _ = False"

definition JSXExpressionContainer_visitor :: "node \<Rightarrow> node \<Rightarrow> scan \<Rightarrow> scan" where
  "JSXExpressionContainer_visitor parent expression sc =
     (if isJSXAttribute parent then (fst sc, propValue expression (snd sc)) else sc)"

text \<open>Dispatch of the visitor object on the type of the node entered.\<close>

fun visit :: "node \<Rightarrow> node \<Rightarrow> scan \<Rightarrow> scan" where
  "visit parent (ReturnStatement argument) sc = ReturnStatement_visitor argument sc"
| "visit parent (ArrowFunctionExpression params body) sc =
     ArrowFunctionExpression_visitor body sc"
| "visit parent (JSXExpressionContainer expression) sc =
     JSXExpressionContainer_visitor parent expression sc"
| "visit parent _ sc = sc"

text \<open>
  Babel's traversal: the children of a node in the order of its \<^verbatim>\<open>VISITOR_KEYS\<close>
  (fields that hold identifiers or names only are left out: no visitor matches in them).
  \<^verbatim>\<open>path.traverse\<close> enters every descendant of the node, parents before children and
  siblings left to right; it does not enter the node itself.
\<close>

fun opt_list :: "'a option \<Rightarrow> 'a list" where
  "opt_list None = []"
| "opt_list (Some x) = [x]"

fun children :: "node \<Rightarrow> node list" where
  "children (JSXElement i nm as cs) = as @ cs"
| "children (JSXFragment cs) = cs"
| "children (JSXExpressionContainer e) = [e]"
| "children (JSXAttribute n v) = opt_list v"
| "children (LogicalExpression op l r) = [l, r]"
| "children (ConditionalExpression c x y) = [c, x, y]"
| "children (ReturnStatement a) = opt_list a"
| "children (ArrowFunctionExpression ps b) = ps @ [b]"
| "children (FunctionExpression ps b) = ps @ [b]"
| "children (FunctionDeclaration ps b) = ps @ [b]"
| "children (VariableDeclarator d init) = d # opt_list init"
| "children (StringLiteral s) = []"
| "children (Other k cs) = cs"

lemma size_in_list: "c \<in> set xs \<Longrightarrow> size (c::node) \<le> size_list size xs"
  by (induction xs) auto

lemma size_in_opt: "c \<in> set (opt_list v) \<Longrightarrow> size (c::node) \<le> size_option size v"
  by (cases v) auto

lemma size_children: "c \<in> set (children n) \<Longrightarrow> size c < size n"
  by (cases n)
     (auto simp: less_Suc_eq_le dest: size_in_list size_in_opt
           intro: trans_le_add1 trans_le_add2)

fun height :: "node list \<Rightarrow> nat" where
  "height [] = 0"
| "height (c # cs) = max (Suc (size c)) (height cs)"

lemma height_children: "height (children n) < Suc (size n)"
proof -
  have "(\<forall>c \<in> set cs. size c < k) \<Longrightarrow> height cs < Suc k" for cs k
    by (induction cs) auto
  then show ?thesis using size_children by blast
qed

function traverse :: "node \<Rightarrow> scan \<Rightarrow> scan"
  and traverseList :: "node \<Rightarrow> node list \<Rightarrow> scan \<Rightarrow> scan" where
  "traverse n sc = traverseList n (children n) sc"
| "traverseList parent [] sc = sc"
| "traverseList parent (c # cs) sc = traverseList parent cs (traverse c (visit parent c sc))"
  by pat_completeness auto
termination
  by (relation "inv_image (less_than <*lex*> less_than)
        (\<lambda>x. case x of Inl (n, sc) \<Rightarrow> (Suc (size n), 0)
                      | Inr (p, cs, sc) \<Rightarrow> (height cs, Suc (length cs)))")
     (auto simp: height_children max_def)

declare traverse.simps [simp del]

text \<open>
  \<^verbatim>\<open>findTopmostJSX(path, state)\<close>: a fresh \<^verbatim>\<open>foundTopmost\<close>, one traversal below the
  node of \<open>path\<close>; the flag is dropped at the end, the state is kept.
\<close>

definition findTopmostJSX :: "node \<Rightarrow> plugin_state \<Rightarrow> plugin_state" where
  "findTopmostJSX n st = snd (traverse n (False, st))"

section \<open>The plugin's visitors\<close>

fun isFunctionInit :: "node \<Rightarrow> bool" where
  "isFunctionInit (ArrowFunctionExpression ps b) = True"
| "isFunctionInit (FunctionExpression ps b) = True"
| "isFunctionInit _ = False"

definition VariableDeclarator_visitor :: "node \<Rightarrow> node \<Rightarrow> plugin_state \<Rightarrow> plugin_state" where
  "VariableDeclarator_visitor declarator init st =
     (if isFunctionInit init then findTopmostJSX declarator st else st)"

text \<open>
  The test of \<^verbatim>\<open>attributes.some(...)\<close>: a \<^verbatim>\<open>JSXAttribute\<close> whose name is the identifier
  \<^verbatim>\<open>__file-path\<close>. The name of a namespaced attribute is an object whose \<^verbatim>\<open>name\<close> is
  itself an identifier node, never equal to a string.
\<close>

fun isFilePathAttribute :: "node \<Rightarrow> bool" where
  "isFilePathAttribute (JSXAttribute (JSXIdentifier n) v) = (n = ''__file-path'')"
| "isFilePathAttribute _ = False"

definition JSXOpeningElement_visitor :: "plugin_state \<Rightarrow> nat \<Rightarrow> node list \<Rightarrow> node list" where
  "JSXOpeningElement_visitor st openingElement attributes =
     (if openingElement \<in> topmostElements st then
        (let fp = (if filePath st = [] then ''unknown'' else filePath st);
             hasAttribute = list_ex isFilePathAttribute attributes
         in if \<not> hasAttribute
            then attributes @ [JSXAttribute (JSXIdentifier ''__file-path'') (Some (StringLiteral fp))]
            else attributes)
      else attributes)"

text \<open>
  The traversal that Babel runs with the plugin's visitor object. It returns the tree as
  the in-place mutation leaves it. An opening element is entered before its attributes
  and the element's children. The attribute pushed by the visitor holds an identifier and
  a string literal, in which no visitor is entered: the traversal goes through the
  attributes the opening element had and the pushed one is kept behind them.
\<close>

fun run :: "node \<Rightarrow> plugin_state \<Rightarrow> node \<times> plugin_state"
  and runList :: "node list \<Rightarrow> plugin_state \<Rightarrow> node list \<times> plugin_state" where
  "run (JSXElement i nm as cs) st =
     (let as1 = JSXOpeningElement_visitor st i as in
      case runList as st of (as2, st2) \<Rightarrow>
      case runList cs st2 of (cs2, st3) \<Rightarrow>
        (JSXElement i nm (as2 @ drop (length as) as1) cs2, st3))"
| "run (JSXFragment cs) st =
     (case runList cs st of (cs2, st2) \<Rightarrow> (JSXFragment cs2, st2))"
| "run (JSXExpressionContainer e) st =
     (case run e st of (e2, st2) \<Rightarrow> (JSXExpressionContainer e2, st2))"
| "run (JSXAttribute n None) st = (JSXAttribute n None, st)"
| "run (JSXAttribute n (Some v)) st =
     (case run v st of (v2, st2) \<Rightarrow> (JSXAttribute n (Some v2), st2))"
| "run (LogicalExpression op l r) st =
     (case run l st of (l2, st2) \<Rightarrow>
      case run r st2 of (r2, st3) \<Rightarrow> (LogicalExpression op l2 r2, st3))"
| "run (ConditionalExpression c x y) st =
     (case run c st of (c2, st2) \<Rightarrow>
      case run x st2 of (x2, st3) \<Rightarrow>
      case run y st3 of (y2, st4) \<Rightarrow> (ConditionalExpression c2 x2 y2, st4))"
| "run (ReturnStatement None) st = (ReturnStatement None, st)"
| "run (ReturnStatement (Some a)) st =
     (case run a st of (a2, st2) \<Rightarrow> (ReturnStatement (Some a2), st2))"
| "run (ArrowFunctionExpression ps b) st =
     (case runList ps st of (ps2, st2) \<Rightarrow>
      case run b st2 of (b2, st3) \<Rightarrow> (ArrowFunctionExpression ps2 b2, st3))"
| "run (FunctionExpression ps b) st =
     (case runList ps st of (ps2, st2) \<Rightarrow>
      case run b st2 of (b2, st3) \<Rightarrow> (FunctionExpression ps2 b2, st3))"
| "run (FunctionDeclaration ps b) st =
     (case runList ps (findTopmostJSX (FunctionDeclaration ps b) st) of (ps2, st2) \<Rightarrow>
      case run b st2 of (b2, st3) \<Rightarrow> (FunctionDeclaration ps2 b2, st3))"
| "run (VariableDeclarator d None) st =
     (case run d st of (d2, st2) \<Rightarrow> (VariableDeclarator d2 None, st2))"
| "run (VariableDeclarator d (Some init)) st =
     (case run d (VariableDeclarator_visitor (VariableDeclarator d (Some init)) init st) of
        (d2, st2) \<Rightarrow>
      case run init st2 of (init2, st3) \<Rightarrow> (VariableDeclarator d2 (Some init2), st3))"
| "run (StringLiteral s) st = (StringLiteral s, st)"
| "run (Other k cs) st =
     (case runList cs st of (cs2, st2) \<Rightarrow> (Other k cs2, st2))"
| "runList [] st = ([], st)"
| "runList (c # cs) st =
     (case run c st of (c2, st2) \<Rightarrow>
      case runList cs st2 of (cs2, st3) \<Rightarrow> (c2 # cs2, st3))"

text \<open>One file: \<^verbatim>\<open>Program.enter\<close>, then the traversal of the program.\<close>

definition plugin :: "string option option \<Rightarrow> node \<Rightarrow> node \<times> plugin_state" where
  "plugin opts program = run program (Program_enter opts)"

section \<open>Notions of the specification\<close>

text \<open>The type tests \<^verbatim>\<open>t.isJSXElement\<close> and \<^verbatim>\<open>t.isJSXFragment\<close>.\<close>

fun isJSXElement :: "node \<Rightarrow> bool" where
  "isJSXElement (JSXElement i nm as cs) = True"
| "isJSXElement _ = False"

fun isJSXFragment :: "node \<Rightarrow> bool" where
  "isJSXFragment (JSXFragment cs) = True"
| "isJSXFragment _ = False"

text \<open>
  The classification of section 4.4 of the specification, in its words: the opening tag of
  a markup element; the operand that ends the right-hand chain of a conjunction; the tags
  that an embedded expression resolves to (a direct element, a conjunction chain, both
  branches of a ternary); the tags that a top-level child of a fragment contributes; the
  tags of a returned expression (a single element, or the children of a fragment).
\<close>

fun element_tag :: "node \<Rightarrow> nat list" where
  "element_tag (JSXElement i nm as cs) = [i]"
| "element_tag _ = []"

fun rightmost_operand :: "node \<Rightarrow> node" where
  "rightmost_operand (LogicalExpression op l r) =
     (if op = ''&&'' then rightmost_operand r else LogicalExpression op l r)"
| "rightmost_operand e = e"

fun expression_tags :: "node \<Rightarrow> nat list" where
  "expression_tags (JSXElement i nm as cs) = [i]"
| "expression_tags (LogicalExpression op l r) =
     (if op = ''&&'' then element_tag (rightmost_operand r) else [])"
| "expression_tags (ConditionalExpression c x y) = element_tag x @ element_tag y"
| "expression_tags _ = []"

fun qualifying_tags :: "node \<Rightarrow> nat list" where
  "qualifying_tags (JSXElement i nm as cs) = [i]"
| "qualifying_tags (JSXExpressionContainer e) = expression_tags e"
| "qualifying_tags _ = []"

fun return_tags :: "node \<Rightarrow> nat list" where
  "return_tags (JSXElement i nm as cs) = [i]"
| "return_tags (JSXFragment cs) = concat (map qualifying_tags cs)"
| "return_tags _ = []"

text \<open>
  Adding tags to the set: \<open>marked\<close> on the pair of flag and state (the flag is raised if
  there is a tag), \<open>extend\<close> and \<open>grow\<close> on the state alone. \<open>rebase\<close> puts a pair over
  another set and path.
\<close>

definition marked :: "nat list \<Rightarrow> scan \<Rightarrow> scan" where
  "marked is sc = (fst sc \<or> is \<noteq> [], (snd sc)\<lparr>topmostElements := topmostElements (snd sc) \<union> set is\<rparr>)"

definition extend :: "nat list \<Rightarrow> plugin_state \<Rightarrow> plugin_state" where
  "extend is st = st\<lparr>topmostElements := topmostElements st \<union> set is\<rparr>"

definition grow :: "nat set \<Rightarrow> plugin_state \<Rightarrow> plugin_state" where
  "grow S st = st\<lparr>topmostElements := topmostElements st \<union> S\<rparr>"

definition rebase :: "nat set \<Rightarrow> string \<Rightarrow> scan \<Rightarrow> scan" where
  "rebase S p sc = (fst sc, \<lparr>topmostElements = topmostElements (snd sc) \<union> S, filePath = p\<rparr>)"

text \<open>
  The nodes below a node, in the order of the traversal. A component is a node for which
  the plugin calls \<^verbatim>\<open>findTopmostJSX\<close>: a function declaration, or a variable declarator
  whose initialiser is an arrow function or a function expression. \<open>marks\<close> is what one
  such call adds to an empty set; \<open>collected\<close> joins the marks of all components in a tree.
\<close>

function descendants :: "node \<Rightarrow> node list"
  and descendantsList :: "node list \<Rightarrow> node list" where
  "descendants n = descendantsList (children n)"
| "descendantsList [] = []"
| "descendantsList (c # cs) = c # descendants c @ descendantsList cs"
  by pat_completeness auto
termination
  by (relation "inv_image (less_than <*lex*> less_than)
        (\<lambda>x. case x of Inl n \<Rightarrow> (Suc (size n), 0)
                      | Inr cs \<Rightarrow> (height cs, Suc (length cs)))")
     (auto simp: height_children max_def)

declare descendants.simps [simp del]

fun isComponent :: "node \<Rightarrow> bool" where
  "isComponent (FunctionDeclaration ps b) = True"
| "isComponent (VariableDeclarator d (Some init)) = isFunctionInit init"
| "isComponent _ = False"

definition marks :: "node \<Rightarrow> nat set" where
  "marks n = topmostElements (findTopmostJSX n \<lparr>topmostElements = {}, filePath = []\<rparr>)"

definition collected :: "node \<Rightarrow> nat set" where
  "collected n = (\<Union>c \<in> set (n # descendants n). if isComponent c then marks c else {})"

definition collectedList :: "node list \<Rightarrow> nat set" where
  "collectedList cs = (\<Union>c \<in> set cs. collected c)"

text \<open>
  The identities of the opening tags in a tree, in the order of the traversal. In a tree that
  a parser built they are distinct: every opening element is an object of its own.
\<close>

fun own_id :: "node \<Rightarrow> nat list" where
  "own_id (JSXElement i nm as cs) = [i]"
| "own_id _ = []"

definition ids :: "node \<Rightarrow> nat list" where
  "ids n = concat (map own_id (n # descendants n))"

definition idsList :: "node list \<Rightarrow> nat list" where
  "idsList cs = concat (map ids cs)"

text \<open>
  The attribute injector as section 4.6 of the specification describes it: one pass over
  every opening tag, with the set and the path of the whole file given.
\<close>

fun inject :: "plugin_state \<Rightarrow> node \<Rightarrow> node" where
  "inject st (JSXElement i nm as cs) =
     JSXElement i nm
       (map (inject st) as @ drop (length as) (JSXOpeningElement_visitor st i as))
       (map (inject st) cs)"
| "inject st (JSXFragment cs) = JSXFragment (map (inject st) cs)"
| "inject st (JSXExpressionContainer e) = JSXExpressionContainer (inject st e)"
| "inject st (JSXAttribute n v) = JSXAttribute n (map_option (inject st) v)"
| "inject st (LogicalExpression op l r) = LogicalExpression op (inject st l) (inject st r)"
| "inject st (ConditionalExpression c x y) =
     ConditionalExpression (inject st c) (inject st x) (inject st y)"
| "inject st (ReturnStatement a) = ReturnStatement (map_option (inject st) a)"
| "inject st (ArrowFunctionExpression ps b) =
     ArrowFunctionExpression (map (inject st) ps) (inject st b)"
| "inject st (FunctionExpression ps b) = FunctionExpression (map (inject st) ps) (inject st b)"
| "inject st (FunctionDeclaration ps b) = FunctionDeclaration (map (inject st) ps) (inject st b)"
| "inject st (VariableDeclarator d init) =
     VariableDeclarator (inject st d) (map_option (inject st) init)"
| "inject st (StringLiteral s) = StringLiteral s"
| "inject st (Other k cs) = Other k (map (inject st) cs)"

text \<open>
  What entering a node adds to the state (the marks of a component); the number of
  attributes named \<^verbatim>\<open>__file-path\<close> on an opening tag; a tree in which no opening tag
  has two of them.
\<close>

definition enter :: "node \<Rightarrow> plugin_state \<Rightarrow> plugin_state" where
  "enter n st = grow (if isComponent n then marks n else {}) st"

fun tag_count :: "node \<Rightarrow> nat" where
  "tag_count (JSXElement i nm as cs) = length (filter isFilePathAttribute as)"
| "tag_count _ = 0"

definition duplicate_free :: "node \<Rightarrow> bool" where
  "duplicate_free n = list_all (\<lambda>x. tag_count x \<le> 1) (n # descendants n)"

text \<open>
  An opening tag with the identity \<open>i\<close> carries an attribute named \<^verbatim>\<open>__file-path\<close>; every
  opening tag with that identity in a tree does.
\<close>

fun carries :: "nat \<Rightarrow> node \<Rightarrow> bool" where
  "carries i (JSXElement j nm as cs) = (j \<noteq> i \<or> list_ex isFilePathAttribute as)"
| "carries i _ = True"

definition tagged :: "nat \<Rightarrow> node \<Rightarrow> bool" where
  "tagged i n = list_all (carries i) (n # descendants n)"

section \<open>Programs of the repository's test script and documentation\<close>

text \<open>
  \<open>Index\<close> is \<^verbatim>\<open>sampleCode\<close> and \<open>wrappedCode\<close> is \<^verbatim>\<open>wrappedCode\<close> of
  \<^verbatim>\<open>src/test-plugin.js\<close>; the attribute lists of the two returned elements of \<open>Index\<close> are
  parameters, to write the tree before and after the plugin. \<open>StatusArrow\<close> is the
  component \<^verbatim>\<open>Status\<close> of the README (section Ternary Expression), \<open>StatusBlock\<close> the same
  with a block body. \<open>Panel\<close> returns a fragment in a guard and an element after it.
  \<open>Routes\<close> is a component that passes an element as a prop value. \<open>Button\<close> and
  \<open>FloatingButton\<close> are the components of these names in the README (sections How It
  Works and Nested Conditional Rendering). \<open>Layout\<close> returns a single element in a guard
  and a fragment of three elements after it.
\<close>

definition className :: "string \<Rightarrow> node" where
  "className v = JSXAttribute (JSXIdentifier ''className'') (Some (StringLiteral v))"

definition file_path :: "string \<Rightarrow> node" where
  "file_path v = JSXAttribute (JSXIdentifier ''__file-path'') (Some (StringLiteral v))"

definition Index :: "node list \<Rightarrow> node list \<Rightarrow> node" where
  "Index loadingAttrs mainAttrs =
     Other ''Program'' [Other ''ExportDefaultDeclaration'' [
       FunctionDeclaration [] (Other ''BlockStatement'' [
         Other ''VariableDeclaration'' [
           VariableDeclarator
             (Other ''ArrayPattern'' [Other ''Identifier'' [], Other ''Identifier'' []])
             (Some (Other ''CallExpression'' [Other ''Identifier'' [], Other ''BooleanLiteral'' []]))],
         Other ''IfStatement'' [Other ''Identifier'' [],
           Other ''BlockStatement'' [
             ReturnStatement (Some
               (JSXElement 1 ''div'' loadingAttrs
                  [Other ''JSXText'' [],
                   JSXElement 2 ''div'' [className ''loading''] [Other ''JSXText'' []],
                   Other ''JSXText'' []]))]],
         ReturnStatement (Some
           (JSXElement 3 ''div'' mainAttrs
              [Other ''JSXText'' [],
               JSXElement 4 ''div'' [className ''content'']
                 [Other ''JSXText'' [],
                  JSXElement 5 ''h1'' [] [Other ''JSXText'' []],
                  Other ''JSXText'' []],
               Other ''JSXText'' []]))])]]"

definition Panel :: "node list \<Rightarrow> node list \<Rightarrow> node" where
  "Panel iconAttrs detailsAttrs =
     Other ''Program'' [
       FunctionDeclaration [] (Other ''BlockStatement'' [
         Other ''IfStatement'' [Other ''Identifier'' [],
           Other ''BlockStatement'' [
             ReturnStatement (Some (JSXFragment [JSXElement 1 ''Icon'' iconAttrs []]))]],
         ReturnStatement (Some (JSXElement 2 ''Details'' detailsAttrs []))])]"

definition StatusArrow :: node where
  "StatusArrow =
     Other ''Program'' [Other ''VariableDeclaration'' [
       VariableDeclarator (Other ''Identifier'' [])
         (Some (ArrowFunctionExpression
            [Other ''ObjectPattern'' [Other ''ObjectProperty''
               [Other ''Identifier'' [], Other ''Identifier'' []]]]
            (ConditionalExpression (Other ''Identifier'' [])
               (JSXElement 1 ''div'' [] [Other ''JSXText'' []])
               (JSXElement 2 ''div'' [] [Other ''JSXText'' []]))))]]"

definition StatusBlock :: node where
  "StatusBlock =
     Other ''Program'' [
       FunctionDeclaration [Other ''Identifier'' []] (Other ''BlockStatement'' [
         ReturnStatement (Some
           (ConditionalExpression (Other ''Identifier'' [])
              (JSXElement 1 ''div'' [] [Other ''JSXText'' []])
              (JSXElement 2 ''div'' [] [Other ''JSXText'' []])))])]"

definition wrappedCode :: node where
  "wrappedCode =
     Other ''Program'' [Other ''ExpressionStatement'' [
       JSXElement 1 ''Route''
         [JSXAttribute (JSXIdentifier ''path'') (Some (StringLiteral ''/books'')),
          JSXAttribute (JSXIdentifier ''element'') (Some (JSXExpressionContainer
            (JSXElement 2 ''PrivateRoute'' []
               [Other ''JSXText'' [], JSXElement 3 ''MyBooks'' [] [], Other ''JSXText'' []])))]
         []]]"

definition Routes :: "node list \<Rightarrow> node" where
  "Routes screenAttrs =
     FunctionDeclaration [] (Other ''BlockStatement'' [
       ReturnStatement (Some
         (JSXElement 1 ''Routes'' []
            [JSXElement 2 ''Route''
               [JSXAttribute (JSXIdentifier ''element'') (Some (JSXExpressionContainer
                  (JSXElement 3 ''Screen'' screenAttrs [])))]
               []]))])"

definition FloatingButton :: "node list \<Rightarrow> node list \<Rightarrow> node" where
  "FloatingButton mainAttrs buttonAttrs =
     Other ''Program'' [Other ''VariableDeclaration'' [
       VariableDeclarator (Other ''Identifier'' [])
         (Some (ArrowFunctionExpression
            [Other ''ObjectPattern'' [
               Other ''ObjectProperty'' [Other ''Identifier'' [], Other ''Identifier'' []],
               Other ''ObjectProperty'' [Other ''Identifier'' [], Other ''Identifier'' []]]]
            (JSXFragment
               [Other ''JSXText'' [],
                JSXElement 1 ''MainContent'' mainAttrs [],
                Other ''JSXText'' [],
                JSXExpressionContainer
                  (LogicalExpression ''&&''
                     (LogicalExpression ''&&'' (Other ''Identifier'' []) (Other ''Identifier'' []))
                     (JSXElement 2 ''Button'' buttonAttrs [Other ''JSXText'' []])),
                Other ''JSXText'' []])))]]"

definition Button :: "node list \<Rightarrow> node" where
  "Button buttonAttrs =
     Other ''Program'' [Other ''VariableDeclaration'' [
       VariableDeclarator (Other ''Identifier'' [])
         (Some (ArrowFunctionExpression
            [Other ''ObjectPattern'' [
               Other ''ObjectProperty'' [Other ''Identifier'' [], Other ''Identifier'' []],
               Other ''ObjectProperty'' [Other ''Identifier'' [], Other ''Identifier'' []]]]
            (Other ''BlockStatement'' [
               ReturnStatement (Some
                 (JSXElement 1 ''button'' buttonAttrs
                    [Other ''JSXText'' [],
                     JSXElement 2 ''span'' []
                       [JSXExpressionContainer (Other ''Identifier'' [])],
                     Other ''JSXText'' []]))])))]]"

definition Layout :: "node list \<Rightarrow> node" where
  "Layout spinnerAttrs =
     Other ''Program'' [
       FunctionDeclaration [] (Other ''BlockStatement'' [
         Other ''IfStatement'' [Other ''Identifier'' [],
           ReturnStatement (Some (JSXElement 1 ''Spinner'' spinnerAttrs []))],
         ReturnStatement (Some
           (JSXFragment
              [JSXElement 2 ''Header'' [] [],
               JSXElement 3 ''Main'' [] [],
               JSXElement 4 ''Footer'' [] []]))])]"

section \<open>Path derivation\<close>

lemma indexOf_none: "\<forall>k. take (length m) (drop k s) \<noteq> m \<Longrightarrow> indexOf s m = - 1"
proof (induction s)
  case Nil
  from Nil[rule_format, of 0] show ?case by auto
next
  case (Cons c s)
  have "\<forall>k. take (length m) (drop k s) \<noteq> m"
    using Cons.prems[rule_format, of "Suc k" for k] by simp
  then have "indexOf s m = - 1" by (rule Cons.IH)
  moreover have "take (length m) (c # s) \<noteq> m"
    using Cons.prems[rule_format, of 0] by simp
  ultimately show ?case by simp
qed

lemma indexOf_first:
  "take (length m) (drop k s) = m \<Longrightarrow> \<forall>j<k. take (length m) (drop j s) \<noteq> m
   \<Longrightarrow> indexOf s m = int k"
proof (induction s arbitrary: k)
  case Nil
  then have m: "m = []" by simp
  have "k = 0"
  proof (rule ccontr)
    assume "k \<noteq> 0"
    then have "0 < k" by simp
    with Nil.prems(2) have "take (length m) (drop 0 ([]::string)) \<noteq> m" by blast
    with m show False by simp
  qed
  with m show ?case by simp
next
  case (Cons c s)
  show ?case
  proof (cases k)
    case 0
    with Cons.prems(1) show ?thesis by simp
  next
    case (Suc k')
    with Cons.prems(2) have neq: "take (length m) (c # s) \<noteq> m" by force
    from Suc Cons.prems(1) have 1: "take (length m) (drop k' s) = m" by simp
    have 2: "\<forall>j<k'. take (length m) (drop j s) \<noteq> m"
    proof (intro allI impI)
      fix j assume "j < k'"
      then have "Suc j < k" using Suc by simp
      with Cons.prems(2) have "take (length m) (drop (Suc j) (c # s)) \<noteq> m" by blast
      then show "take (length m) (drop j s) \<noteq> m" by simp
    qed
    from Cons.IH[OF 1 2] have "indexOf s m = int k'" .
    with neq Suc show ?thesis by simp
  qed
qed

lemma indexOf_marker_first:
  assumes "length m = n" and "take n (drop k s) = m" and "\<forall>j<k. take n (drop j s) \<noteq> m"
  shows "indexOf s m = int k"
  using assms indexOf_first[of m k s] by blast

lemma indexOf_marker_none:
  assumes "length m = n" and "\<forall>k. take n (drop k s) \<noteq> m"
  shows "indexOf s m = - 1"
  using assms indexOf_none[of m s] by blast

lemma first_occurrence:
  assumes "\<exists>k. take 4 (drop k s) = ''src/''"
  shows "\<exists>pre post. s = pre @ ''src/'' @ post \<and> (\<forall>j<length pre. take 4 (drop j s) \<noteq> ''src/'')"
proof -
  define k where "k = (LEAST k. take 4 (drop k s) = ''src/'')"
  have k: "take 4 (drop k s) = ''src/''"
    unfolding k_def using assms by (rule LeastI_ex)
  have least: "\<forall>j<k. take 4 (drop j s) \<noteq> ''src/''"
    unfolding k_def using not_less_Least by blast
  have "k \<le> length s"
  proof (rule ccontr)
    assume "\<not> k \<le> length s"
    then have "drop k s = []" by simp
    with k show False by simp
  qed
  have "s = take k s @ drop k s" by simp
  also have "drop k s = take 4 (drop k s) @ drop 4 (drop k s)"
    by (simp only: append_take_drop_id)
  finally have "s = take k s @ take 4 (drop k s) @ drop 4 (drop k s)" .
  with k have "s = take k s @ ''src/'' @ drop 4 (drop k s)" by simp
  moreover have "length (take k s) = k" using \<open>k \<le> length s\<close> by simp
  ultimately show ?thesis using least by metis
qed

lemma filePath_marker:
  assumes "s = pre @ ''src/'' @ post"
    and "\<forall>j<length pre. take 4 (drop j s) \<noteq> ''src/''"
  shows "filePath (Program_enter (Some (Some s))) = ''src/'' @ post"
proof -
  have "take 4 (drop (length pre) s) = ''src/''"
    unfolding assms(1) by simp
  with assms(2) have "indexOf s ''src/'' = int (length pre)"
    by (intro indexOf_marker_first[where n = 4]) simp_all
  moreover have "drop (length pre) s = ''src/'' @ post"
    unfolding assms(1) by simp
  ultimately show ?thesis
    by (simp add: Program_enter_def substring_def)
qed

lemma filePath_no_marker:
  assumes "\<forall>k. take 4 (drop k s) \<noteq> ''src/''"
  shows "filePath (Program_enter (Some (Some s))) = s"
proof -
  from assms have "indexOf s ''src/'' = - 1"
    by (intro indexOf_marker_none[where n = 4]) simp_all
  then show ?thesis by (simp add: Program_enter_def)
qed

lemma filePath_absent:
  "filePath (Program_enter None) = []" "filePath (Program_enter (Some None)) = []"
  by (simp_all add: Program_enter_def)

lemma visitor_push:
  "i \<in> topmostElements st \<Longrightarrow> \<not> list_ex isFilePathAttribute as \<Longrightarrow>
   JSXOpeningElement_visitor st i as = as @
     [JSXAttribute (JSXIdentifier ''__file-path'')
        (Some (StringLiteral (if filePath st = [] then ''unknown'' else filePath st)))]"
  by (simp add: JSXOpeningElement_visitor_def)

lemma visitor_unmarked: "i \<notin> topmostElements st \<Longrightarrow> JSXOpeningElement_visitor st i as = as"
  by (simp add: JSXOpeningElement_visitor_def)

lemma visitor_present: "list_ex isFilePathAttribute as \<Longrightarrow> JSXOpeningElement_visitor st i as = as"
  by (simp add: JSXOpeningElement_visitor_def)

text \<open>
  Claim C7. For a path that contains the marker \<^verbatim>\<open>src/\<close>, with its first occurrence
  after the prefix \<open>pre\<close>, the derived path is the rest of the input from that occurrence
  on; every path in which the marker occurs has such a first occurrence. For a path without
  the marker the derived path is the input. Without a path (no file options, or an
  undefined file name) the derived path is empty and the attribute pushed onto a marked tag
  has the value \<^verbatim>\<open>unknown\<close>. \<open>Program_enter\<close> is a total function into states: there is
  no error for it to return.
\<close>

theorem C7_path:
  "(s = pre @ ''src/'' @ post \<and> (\<forall>j<length pre. take 4 (drop j s) \<noteq> ''src/'')
      \<longrightarrow> filePath (Program_enter (Some (Some s))) = ''src/'' @ post)
   \<and> ((\<exists>k. take 4 (drop k s) = ''src/'') \<longrightarrow>
        (\<exists>pre' post'. s = pre' @ ''src/'' @ post'
           \<and> (\<forall>j<length pre'. take 4 (drop j s) \<noteq> ''src/'')
           \<and> filePath (Program_enter (Some (Some s))) = ''src/'' @ post'))
   \<and> ((\<forall>k. take 4 (drop k s) \<noteq> ''src/'') \<longrightarrow> filePath (Program_enter (Some (Some s))) = s)
   \<and> filePath (Program_enter None) = [] \<and> filePath (Program_enter (Some None)) = []
   \<and> (filePath st = [] \<and> i \<in> topmostElements st \<and> \<not> list_ex isFilePathAttribute as
      \<longrightarrow> JSXOpeningElement_visitor st i as =
            as @ [JSXAttribute (JSXIdentifier ''__file-path'') (Some (StringLiteral ''unknown''))])"
proof -
  have "\<exists>pre' post'. s = pre' @ ''src/'' @ post'
           \<and> (\<forall>j<length pre'. take 4 (drop j s) \<noteq> ''src/'')
           \<and> filePath (Program_enter (Some (Some s))) = ''src/'' @ post'"
    if "\<exists>k. take 4 (drop k s) = ''src/''"
  proof -
    from that obtain pre' post' where
      "s = pre' @ ''src/'' @ post'" "\<forall>j<length pre'. take 4 (drop j s) \<noteq> ''src/''"
      using first_occurrence by blast
    then show ?thesis using filePath_marker by blast
  qed
  then show ?thesis
    using filePath_marker filePath_no_marker filePath_absent visitor_push by auto
qed

theorem C7_path_witness:
  "filePath (Program_enter (Some (Some ''/abs/project/src/pages/Foo.tsx''))) = ''src/pages/Foo.tsx''
   \<and> filePath (Program_enter (Some (Some ''/abs/lib/Foo.tsx''))) = ''/abs/lib/Foo.tsx''
   \<and> JSXOpeningElement_visitor \<lparr>topmostElements = {7}, filePath = []\<rparr> 7 [] =
       [JSXAttribute (JSXIdentifier ''__file-path'') (Some (StringLiteral ''unknown''))]"
proof -
  let ?s = "''/abs/project/src/pages/Foo.tsx''" and ?t = "''/abs/lib/Foo.tsx''"
  let ?st = "\<lparr>topmostElements = {7::nat}, filePath = []\<rparr>"
  have 1: "?s = ''/abs/project/'' @ ''src/'' @ ''pages/Foo.tsx''"
    by simp
  have 2: "\<forall>j<length ''/abs/project/''. take 4 (drop j ?s) \<noteq> ''src/''"
    by (simp add: All_less_Suc numeral_eq_Suc del: One_nat_def)
  have "\<forall>k<16. take 4 (drop k ?t) \<noteq> ''src/''"
    by (simp add: All_less_Suc numeral_eq_Suc del: One_nat_def)
  moreover have "\<not> k < 16 \<Longrightarrow> take 4 (drop k ?t) \<noteq> ''src/''" for k
    by simp
  ultimately have 3: "\<forall>k. take 4 (drop k ?t) \<noteq> ''src/''"
    by blast
  have 4: "filePath ?st = [] \<and> 7 \<in> topmostElements ?st \<and> \<not> list_ex isFilePathAttribute []"
    by simp
  note x = C7_path[of ?s "''/abs/project/''" "''pages/Foo.tsx''" ?st 7 "[]"]
  note y = C7_path[of ?t "[]" "[]" ?st 7 "[]"]
  from x 1 2 have a: "filePath (Program_enter (Some (Some ?s))) = ''src/'' @ ''pages/Foo.tsx''"
    by blast
  from y 3 have b: "filePath (Program_enter (Some (Some ?t))) = ?t"
    by blast
  from x 4 have c: "JSXOpeningElement_visitor ?st 7 [] =
       [] @ [JSXAttribute (JSXIdentifier ''__file-path'') (Some (StringLiteral ''unknown''))]"
    by blast
  from a b c show ?thesis by simp
qed

section \<open>The classification of expressions\<close>

lemma extract_rightmost:
  "extractJSXFromLogicalAnd e =
     (if isJSXElement (rightmost_operand e) then Some (rightmost_operand e) else None)"
  by (induction e rule: extractJSXFromLogicalAnd.induct) simp_all

lemma extract_chain:
  "extractJSXFromLogicalAnd (foldr (LogicalExpression ''&&'') conds e) = extractJSXFromLogicalAnd e"
  by (induction conds) simp_all

lemma tagIfJSXElement_marked: "tagIfJSXElement x sc = marked (element_tag x) sc"
  by (cases x) (simp_all add: marked_def add_def)

lemma tagChildExpression_marked: "tagChildExpression e sc = marked (expression_tags e) sc"
proof (cases e)
  case (LogicalExpression op l r)
  then show ?thesis
    by (cases "rightmost_operand r")
       (simp_all add: extract_rightmost tagIfJSXElement_marked marked_def)
next
  case (ConditionalExpression c x y)
  then show ?thesis
    by (auto simp: tagIfJSXElement_marked marked_def Un_assoc)
qed (simp_all add: marked_def add_def)

lemma tagChild_marked: "tagChild c sc = marked (qualifying_tags c) sc"
  by (cases c) (simp_all add: tagChildExpression_marked, simp_all add: marked_def add_def)

lemma marked_marked: "marked js (marked is sc) = marked (is @ js) sc"
  by (auto simp: marked_def Un_assoc)

lemma fold_tagChild_marked: "fold tagChild cs sc = marked (concat (map qualifying_tags cs)) sc"
proof (induction cs arbitrary: sc)
  case Nil
  show ?case by (simp add: marked_def)
next
  case (Cons c cs)
  then show ?case by (simp add: tagChild_marked marked_marked)
qed

lemma addIfJSXElement_extend: "addIfJSXElement x st = extend (element_tag x) st"
  by (cases x) (simp_all add: extend_def add_def)

lemma propValue_extend: "propValue e st = extend (expression_tags e) st"
proof (cases e)
  case (LogicalExpression op l r)
  then show ?thesis
    by (cases "rightmost_operand r")
       (simp_all add: extract_rightmost addIfJSXElement_extend extend_def)
next
  case (ConditionalExpression c x y)
  then show ?thesis
    by (simp add: addIfJSXElement_extend extend_def Un_assoc)
qed (simp_all add: extend_def add_def)

lemma returnSite_marked: "returnSite a sc = marked (return_tags a) sc"
  by (cases a) (simp_all add: fold_tagChild_marked, simp_all add: marked_def add_def)

lemma marked_tops [simp]:
  "topmostElements (snd (marked is sc)) = topmostElements (snd sc) \<union> set is"
  "filePath (snd (marked is sc)) = filePath (snd sc)"
  by (simp_all add: marked_def)

text \<open>
  Claim C6. \<^verbatim>\<open>extractJSXFromLogicalAnd\<close> returns the operand that ends the right-hand
  chain of conjunctions when it is a markup element, and nothing otherwise, whatever the
  depth of the chain: under any number of conjunctions the result is that of the last
  right operand, and a conjunction whose right operand is an element (the shape the parser
  gives \<^verbatim>\<open>a && b && c && <X/>\<close>) resolves to it. In a fragment child and in a prop value
  the tag of that element is marked; a chain that does not end in an element marks nothing.
\<close>

theorem C6_conjunction_chain:
  "extractJSXFromLogicalAnd e =
     (if isJSXElement (rightmost_operand e) then Some (rightmost_operand e) else None)
   \<and> extractJSXFromLogicalAnd (foldr (LogicalExpression ''&&'') conds e) =
       extractJSXFromLogicalAnd e
   \<and> extractJSXFromLogicalAnd (LogicalExpression ''&&'' l (JSXElement i nm as cs)) =
       Some (JSXElement i nm as cs)
   \<and> (rightmost_operand r = JSXElement i nm as cs \<longrightarrow>
        tagChild (JSXExpressionContainer (LogicalExpression ''&&'' l r)) sc = (True, add i (snd sc))
        \<and> propValue (LogicalExpression ''&&'' l r) st = add i st)
   \<and> (\<not> isJSXElement (rightmost_operand r) \<longrightarrow>
        extractJSXFromLogicalAnd (LogicalExpression ''&&'' l r) = None
        \<and> tagChild (JSXExpressionContainer (LogicalExpression ''&&'' l r)) sc = sc
        \<and> propValue (LogicalExpression ''&&'' l r) st = st)"
proof (intro conjI impI)
  assume "rightmost_operand r = JSXElement i nm as cs"
  then show "tagChild (JSXExpressionContainer (LogicalExpression ''&&'' l r)) sc = (True, add i (snd sc))"
    and "propValue (LogicalExpression ''&&'' l r) st = add i st"
    by (simp_all add: extract_rightmost)
next
  assume "\<not> isJSXElement (rightmost_operand r)"
  then show "extractJSXFromLogicalAnd (LogicalExpression ''&&'' l r) = None"
    and "tagChild (JSXExpressionContainer (LogicalExpression ''&&'' l r)) sc = sc"
    and "propValue (LogicalExpression ''&&'' l r) st = st"
    by (simp_all add: extract_rightmost)
next
  show "extractJSXFromLogicalAnd e =
     (if isJSXElement (rightmost_operand e) then Some (rightmost_operand e) else None)"
    by (rule extract_rightmost)
next
  show "extractJSXFromLogicalAnd (foldr (LogicalExpression ''&&'') conds e) =
       extractJSXFromLogicalAnd e"
    by (rule extract_chain)
qed simp

theorem C6_conjunction_chain_witness:
  "tagChild (JSXExpressionContainer
      (LogicalExpression ''&&''
         (LogicalExpression ''&&''
            (LogicalExpression ''&&'' (Other ''Identifier'' []) (Other ''Identifier'' []))
            (Other ''Identifier'' []))
         (JSXElement 1 ''Btn'' [] [])))
      (False, \<lparr>topmostElements = {}, filePath = ''src/a.tsx''\<rparr>)
    = (True, \<lparr>topmostElements = {1}, filePath = ''src/a.tsx''\<rparr>)
   \<and> tagChild (JSXExpressionContainer
      (LogicalExpression ''&&'' (Other ''Identifier'' []) (Other ''Identifier'' [])))
      (False, \<lparr>topmostElements = {}, filePath = ''src/a.tsx''\<rparr>)
    = (False, \<lparr>topmostElements = {}, filePath = ''src/a.tsx''\<rparr>)"
proof -
  let ?a = "Other ''Identifier'' []" and ?x = "JSXElement 1 ''Btn'' [] []"
  let ?sc = "(False, \<lparr>topmostElements = {}, filePath = ''src/a.tsx''\<rparr>)"
  have 1: "rightmost_operand ?x = JSXElement 1 ''Btn'' [] []" by simp
  have 2: "\<not> isJSXElement (rightmost_operand ?a)" by simp
  from 1 C6_conjunction_chain[where r = ?x and i = 1 and nm = "''Btn''" and as = "[]" and cs = "[]"
      and l = "LogicalExpression ''&&'' (LogicalExpression ''&&'' ?a ?a) ?a" and sc = ?sc]
  have "tagChild (JSXExpressionContainer
      (LogicalExpression ''&&'' (LogicalExpression ''&&'' (LogicalExpression ''&&'' ?a ?a) ?a) ?x)) ?sc
      = (True, add 1 (snd ?sc))"
    by blast
  moreover from 2 C6_conjunction_chain[where r = ?a and l = ?a and sc = ?sc]
  have "tagChild (JSXExpressionContainer (LogicalExpression ''&&'' ?a ?a)) ?sc = ?sc"
    by blast
  ultimately show ?thesis by (simp add: add_def)
qed

section \<open>Return sites\<close>

lemma return_not_markup:
  "\<not> isJSXElement a \<Longrightarrow> \<not> isJSXFragment a \<Longrightarrow> returnSite a sc = sc"
  by (cases a) simp_all

text \<open>
  Claim C9. A return statement or an arrow body whose expression is neither a markup
  element nor a fragment leaves the flag and the set of marked tags as they were; so does
  a return statement without an argument. The visitors are total: no error arises.
\<close>

theorem C9_non_markup_return:
  "\<not> isJSXElement a \<and> \<not> isJSXFragment a \<longrightarrow>
     ReturnStatement_visitor (Some a) sc = sc \<and> ArrowFunctionExpression_visitor a sc = sc
     \<and> visit p (ReturnStatement (Some a)) sc = sc \<and> visit p (ReturnStatement None) sc = sc"
  by (simp add: ReturnStatement_visitor_def ArrowFunctionExpression_visitor_def return_not_markup)

theorem C9_non_markup_return_witness:
  "ReturnStatement_visitor (Some (Other ''NullLiteral'' [])) (False, \<lparr>topmostElements = {}, filePath = ''a.js''\<rparr>)
     = (False, \<lparr>topmostElements = {}, filePath = ''a.js''\<rparr>)
   \<and> ArrowFunctionExpression_visitor (StringLiteral ''plain'') (False, \<lparr>topmostElements = {}, filePath = ''a.js''\<rparr>)
     = (False, \<lparr>topmostElements = {}, filePath = ''a.js''\<rparr>)"
proof -
  have 1: "\<not> isJSXElement (Other ''NullLiteral'' []) \<and> \<not> isJSXFragment (Other ''NullLiteral'' [])"
    by simp
  have 2: "\<not> isJSXElement (StringLiteral ''plain'') \<and> \<not> isJSXFragment (StringLiteral ''plain'')"
    by simp
  from 1 C9_non_markup_return[of "Other ''NullLiteral'' []" "(False, \<lparr>topmostElements = {}, filePath = ''a.js''\<rparr>)"]
    2 C9_non_markup_return[of "StringLiteral ''plain''" "(False, \<lparr>topmostElements = {}, filePath = ''a.js''\<rparr>)"]
  show ?thesis by blast
qed

section \<open>The traversal of a component\<close>

lemma marked_rebase: "marked is (rebase S p sc) = rebase S p (marked is sc)"
  by (auto simp: marked_def rebase_def)

lemma visit_rebase: "visit par c (rebase S p sc) = rebase S p (visit par c sc)"
proof (cases c)
  case (ReturnStatement a)
  then show ?thesis
    by (cases a) (auto simp: ReturnStatement_visitor_def returnSite_marked marked_rebase, auto simp: rebase_def)
next
  case (ArrowFunctionExpression ps b)
  then show ?thesis
    by (auto simp: ArrowFunctionExpression_visitor_def returnSite_marked marked_rebase, auto simp: rebase_def)
next
  case (JSXExpressionContainer e)
  then show ?thesis
    by (auto simp: JSXExpressionContainer_visitor_def propValue_extend extend_def rebase_def)
qed simp_all

lemma traverse_rebase:
  "traverse n (rebase S p sc) = rebase S p (traverse n sc)"
  "traverseList par cs (rebase S p sc) = rebase S p (traverseList par cs sc)"
proof (induction n sc and par cs sc rule: traverse_traverseList.induct)
  case (1 n sc)
  then show ?case by (simp add: traverse.simps)
next
  case (2 parent sc)
  show ?case by simp
next
  case (3 parent c cs sc)
  then show ?case by (simp add: visit_rebase)
qed

lemma set_descendantsList:
  "set (descendantsList cs) = (\<Union>c\<in>set cs. insert c (set (descendants c)))"
  by (induction cs) simp_all

lemma set_descendants:
  "set (descendants n) = (\<Union>c\<in>set (children n). insert c (set (descendants c)))"
  by (subst descendants.simps) (rule set_descendantsList)

lemma scan_rebase:
  "sc = rebase (topmostElements (snd sc)) (filePath (snd sc))
          (fst sc, \<lparr>topmostElements = {}, filePath = []\<rparr>)"
  by (cases sc) (simp add: rebase_def)

lemma traverse_grows:
  "topmostElements (snd sc) \<subseteq> topmostElements (snd (traverse n sc))"
  "filePath (snd (traverse n sc)) = filePath (snd sc)"
proof -
  have "traverse n sc = rebase (topmostElements (snd sc)) (filePath (snd sc))
          (traverse n (fst sc, \<lparr>topmostElements = {}, filePath = []\<rparr>))"
    by (subst scan_rebase[of sc]) (simp only: traverse_rebase)
  then show "topmostElements (snd sc) \<subseteq> topmostElements (snd (traverse n sc))"
    and "filePath (snd (traverse n sc)) = filePath (snd sc)"
    by (simp_all add: rebase_def)
qed

lemma traverseList_grows:
  "topmostElements (snd sc) \<subseteq> topmostElements (snd (traverseList par cs sc))"
proof -
  have "traverseList par cs sc = rebase (topmostElements (snd sc)) (filePath (snd sc))
          (traverseList par cs (fst sc, \<lparr>topmostElements = {}, filePath = []\<rparr>))"
    by (subst scan_rebase[of sc]) (simp only: traverse_rebase)
  then show ?thesis by (simp add: rebase_def)
qed

lemma findTopmostJSX_marks:
  "findTopmostJSX n st = st\<lparr>topmostElements := topmostElements st \<union> marks n\<rparr>"
proof -
  have "traverse n (False, st) = rebase (topmostElements st) (filePath st)
          (traverse n (False, \<lparr>topmostElements = {}, filePath = []\<rparr>))"
    using scan_rebase[of "(False, st)"] traverse_rebase(1) by (metis fst_conv snd_conv)
  then show ?thesis
    by (simp add: findTopmostJSX_def marks_def rebase_def Un_commute)
qed

lemma collected_children:
  "collected n = (if isComponent n then marks n else {}) \<union> collectedList (children n)"
  unfolding collected_def collectedList_def
  by (simp add: set_descendants[of n]) blast

lemma collectedList_simps [simp]:
  "collectedList [] = {}"
  "collectedList (c # cs) = collected c \<union> collectedList cs"
  "collectedList (xs @ ys) = collectedList xs \<union> collectedList ys"
  by (auto simp: collectedList_def)

lemma grow_grow [simp]: "grow T (grow S st) = grow (S \<union> T) st"
  by (simp add: grow_def Un_assoc)

lemma grow_empty [simp]: "grow {} st = st"
  by (simp add: grow_def)

lemma run_state_list:
  assumes "\<And>x st. x \<in> set cs \<Longrightarrow> snd (run x st) = grow (collected x) st"
  shows "snd (runList cs st) = grow (collectedList cs) st"
  using assms by (induction cs arbitrary: st) (simp_all add: case_prod_beta)

lemma run_state: "snd (run n st) = grow (collected n) st"
proof (induction n arbitrary: st)
  case (JSXAttribute nm v)
  then show ?case
    by (cases v) (simp_all add: case_prod_beta collected_children)
next
  case (ReturnStatement a)
  then show ?case
    by (cases a) (simp_all add: case_prod_beta collected_children)
next
  case (VariableDeclarator d init)
  then show ?case
    by (cases init)
       (simp_all add: case_prod_beta collected_children VariableDeclarator_visitor_def
          findTopmostJSX_marks grow_def[symmetric] Un_assoc)
next
  case (FunctionDeclaration ps b)
  then show ?case
    by (simp add: case_prod_beta collected_children run_state_list
          findTopmostJSX_marks grow_def[symmetric] Un_assoc)
qed (simp_all add: case_prod_beta collected_children run_state_list Un_assoc)

lemma attribute_scanned:
  "set (expression_tags e) \<subseteq>
     topmostElements (snd (traverse (JSXAttribute nm (Some (JSXExpressionContainer e))) sc))"
proof -
  let ?sc = "visit (JSXAttribute nm (Some (JSXExpressionContainer e))) (JSXExpressionContainer e) sc"
  have "set (expression_tags e) \<subseteq> topmostElements (snd ?sc)"
    by (simp add: JSXExpressionContainer_visitor_def propValue_extend extend_def)
  also have "\<dots> \<subseteq> topmostElements (snd (traverse (JSXExpressionContainer e) ?sc))"
    by (rule traverse_grows)
  finally show ?thesis by (simp add: traverse.simps[of "JSXAttribute nm (Some (JSXExpressionContainer e))"])
qed

lemma prop_scanned:
  "JSXAttribute nm (Some (JSXExpressionContainer e)) \<in> set (descendants n) \<Longrightarrow>
     set (expression_tags e) \<subseteq> topmostElements (snd (traverse n sc))"
  "JSXAttribute nm (Some (JSXExpressionContainer e)) \<in> set (descendantsList cs) \<Longrightarrow>
     set (expression_tags e) \<subseteq> topmostElements (snd (traverseList par cs sc))"
proof (induction n sc and par cs sc rule: traverse_traverseList.induct)
  case (1 n sc)
  then show ?case by (simp add: traverse.simps descendants.simps)
next
  case (2 parent sc)
  then show ?case by simp
next
  case (3 parent c cs sc)
  let ?a = "JSXAttribute nm (Some (JSXExpressionContainer e))"
  let ?sc = "traverse c (visit parent c sc)"
  from "3.prems" consider "?a = c" | "?a \<in> set (descendants c)" | "?a \<in> set (descendantsList cs)"
    by auto
  then show ?case
  proof cases
    case 1
    then have "set (expression_tags e) \<subseteq> topmostElements (snd ?sc)"
      using attribute_scanned[of e nm "visit parent c sc"] by simp
    with traverseList_grows[of ?sc parent cs] show ?thesis
      by auto
  next
    case 2
    then have "set (expression_tags e) \<subseteq> topmostElements (snd ?sc)"
      by (rule "3.IH"(1))
    with traverseList_grows[of ?sc parent cs] show ?thesis
      by auto
  next
    case 3
    then show ?thesis using "3.IH"(2) by simp
  qed
qed

lemma prop_marks:
  "JSXAttribute nm (Some (JSXExpressionContainer e)) \<in> set (descendants n) \<Longrightarrow>
     set (expression_tags e) \<subseteq> marks n"
  unfolding marks_def findTopmostJSX_def by (rule prop_scanned(1))

lemma component_collected:
  "isComponent c \<Longrightarrow> c \<in> set (p # descendants p) \<Longrightarrow> marks c \<subseteq> collected p"
  unfolding collected_def by auto

lemma plugin_state:
  "snd (plugin opts p) = \<lparr>topmostElements = collected p, filePath = filePath (Program_enter opts)\<rparr>"
  by (cases opts) (simp_all add: plugin_def run_state grow_def Program_enter_def Let_def)

section \<open>The traversal of the file\<close>

text \<open>
  The tags that the visitors read off a node are the same after the plugin has run on it:
  the plugin changes attribute lists only, by attributes in which no visitor is entered.
  So a traversal by \<^verbatim>\<open>findTopmostJSX\<close> gives the same result on the tree the plugin
  returns, and a second run of the plugin changes nothing.
\<close>

lemma run_JSXAttribute:
  "run (JSXAttribute nm v) st =
     (JSXAttribute nm (map_option (\<lambda>x. fst (run x st)) v),
      case v of None \<Rightarrow> st | Some x \<Rightarrow> snd (run x st))"
  by (cases v) (simp_all add: case_prod_beta)

lemma run_ReturnStatement:
  "run (ReturnStatement a) st =
     (ReturnStatement (map_option (\<lambda>x. fst (run x st)) a),
      case a of None \<Rightarrow> st | Some x \<Rightarrow> snd (run x st))"
  by (cases a) (simp_all add: case_prod_beta)

lemma run_VariableDeclarator:
  "fst (run (VariableDeclarator d init) st) =
     VariableDeclarator
       (fst (run d (case init of None \<Rightarrow> st
                    | Some x \<Rightarrow> VariableDeclarator_visitor (VariableDeclarator d init) x st)))
       (map_option (\<lambda>x. fst (run x (snd (run d
           (VariableDeclarator_visitor (VariableDeclarator d init) x st))))) init)"
  by (cases init) (simp_all add: case_prod_beta)

lemmas run_simps = case_prod_beta run_JSXAttribute run_ReturnStatement run_VariableDeclarator

lemma run_head:
  "isJSXAttribute (fst (run n st)) = isJSXAttribute n"
  "isFilePathAttribute (fst (run n st)) = isFilePathAttribute n"
  "element_tag (fst (run n st)) = element_tag n"
  "isJSXElement (fst (run n st)) = isJSXElement n"
  "isFunctionInit (fst (run n st)) = isFunctionInit n"
proof -
  show "isJSXAttribute (fst (run n st)) = isJSXAttribute n"
    by (cases n) (simp_all add: run_simps)
  show "element_tag (fst (run n st)) = element_tag n"
    by (cases n) (simp_all add: run_simps)
  show "isJSXElement (fst (run n st)) = isJSXElement n"
    by (cases n) (simp_all add: run_simps)
  show "isFunctionInit (fst (run n st)) = isFunctionInit n"
    by (cases n) (simp_all add: run_simps)
  show "isFilePathAttribute (fst (run n st)) = isFilePathAttribute n"
  proof (cases n)
    case (JSXAttribute nm v)
    then show ?thesis by (cases nm) (simp_all add: run_simps)
  qed (simp_all add: run_simps)
qed

lemma rightmost_run:
  "element_tag (rightmost_operand (fst (run e st))) = element_tag (rightmost_operand e)"
proof (induction e arbitrary: st rule: rightmost_operand.induct)
  case (1 op l r)
  then show ?case by (simp add: run_simps)
qed (simp_all add: run_simps)

lemma expression_tags_run: "expression_tags (fst (run e st)) = expression_tags e"
  by (cases e) (simp_all add: run_simps rightmost_run run_head)

lemma qualifying_tags_run: "qualifying_tags (fst (run c st)) = qualifying_tags c"
  by (cases c) (simp_all add: run_simps expression_tags_run)

lemma qualifying_tags_runList:
  "concat (map qualifying_tags (fst (runList cs st))) = concat (map qualifying_tags cs)"
  by (induction cs arbitrary: st) (simp_all add: run_simps qualifying_tags_run)

lemma return_tags_run: "return_tags (fst (run a st)) = return_tags a"
  by (cases a) (simp_all add: run_simps qualifying_tags_runList)

lemma returnSite_run: "returnSite (fst (run a st)) sc = returnSite a sc"
  by (simp add: returnSite_marked return_tags_run)

lemma propValue_run: "propValue (fst (run e st)) s = propValue e s"
  by (simp add: propValue_extend expression_tags_run)

lemma visit_run:
  assumes "isJSXAttribute p' = isJSXAttribute p"
  shows "visit p' (fst (run c st)) sc = visit p c sc"
proof (cases c)
  case (ReturnStatement a)
  then show ?thesis
    by (cases a) (simp_all add: run_simps ReturnStatement_visitor_def returnSite_run)
next
  case (ArrowFunctionExpression ps b)
  then show ?thesis
    by (simp add: run_simps ArrowFunctionExpression_visitor_def returnSite_run)
next
  case (JSXExpressionContainer e)
  then show ?thesis
    using assms by (simp add: run_simps JSXExpressionContainer_visitor_def propValue_run)
next
  case (JSXAttribute nm v)
  then show ?thesis by (cases v) (simp_all add: run_simps)
next
  case (VariableDeclarator d init)
  then show ?thesis by (cases init) (simp_all add: run_simps)
qed (simp_all add: run_simps)

lemma traverseList_append:
  "traverseList p (xs @ ys) sc = traverseList p ys (traverseList p xs sc)"
  by (induction xs arbitrary: sc) simp_all

lemma traverseList_run:
  assumes "\<And>x st sc. x \<in> set xs \<Longrightarrow> traverse (fst (run x st)) sc = traverse x sc"
    and "isJSXAttribute p' = isJSXAttribute p"
  shows "traverseList p' (fst (runList xs st)) sc = traverseList p xs sc"
  using assms(1)
proof (induction xs arbitrary: st sc)
  case Nil
  show ?case by simp
next
  case (Cons x xs)
  then show ?case by (simp add: run_simps visit_run[OF assms(2)])
qed

lemma traverse_pushed:
  "traverseList p (drop (length as) (JSXOpeningElement_visitor st i as)) sc = sc"
  by (simp add: JSXOpeningElement_visitor_def traverse.simps)

lemma traverse_run: "traverse (fst (run n st)) sc = traverse n sc"
proof (induction n arbitrary: st sc)
  case (JSXElement i nm as cs)
  let ?n = "JSXElement i nm as cs"
  have p: "isJSXAttribute (fst (run ?n st)) = isJSXAttribute ?n" by (rule run_head)
  show ?case
    by (simp add: traverse.simps[of "JSXElement _ _ _ _"] run_simps traverseList_append
          traverse_pushed traverseList_run[where p = ?n] JSXElement)
next
  case (JSXFragment cs)
  then show ?case
    by (simp add: traverse.simps[of "JSXFragment _"] run_simps
          traverseList_run[where p = "JSXFragment cs"])
next
  case (JSXExpressionContainer e)
  then show ?case
    by (simp add: traverse.simps[of "JSXExpressionContainer _"] run_simps visit_run[where p = "JSXExpressionContainer e"])
next
  case (JSXAttribute nm v)
  then show ?case
    by (cases v) (simp_all add: traverse.simps[of "JSXAttribute _ _"] run_simps visit_run[where p = "JSXAttribute nm v"])
next
  case (LogicalExpression op l r)
  then show ?case
    by (simp add: traverse.simps[of "LogicalExpression _ _ _"] run_simps visit_run[where p = "LogicalExpression op l r"])
next
  case (ConditionalExpression c x y)
  then show ?case
    by (simp add: traverse.simps[of "ConditionalExpression _ _ _"] run_simps visit_run[where p = "ConditionalExpression c x y"])
next
  case (ReturnStatement a)
  then show ?case
    by (cases a) (simp_all add: traverse.simps[of "ReturnStatement _"] run_simps visit_run[where p = "ReturnStatement a"])
next
  case (ArrowFunctionExpression ps b)
  then show ?case
    by (simp add: traverse.simps[of "ArrowFunctionExpression _ _"] run_simps traverseList_append
          visit_run[where p = "ArrowFunctionExpression ps b"] traverseList_run[where p = "ArrowFunctionExpression ps b"])
next
  case (FunctionExpression ps b)
  then show ?case
    by (simp add: traverse.simps[of "FunctionExpression _ _"] run_simps traverseList_append
          visit_run[where p = "FunctionExpression ps b"] traverseList_run[where p = "FunctionExpression ps b"])
next
  case (FunctionDeclaration ps b)
  then show ?case
    by (simp add: traverse.simps[of "FunctionDeclaration _ _"] run_simps traverseList_append
          visit_run[where p = "FunctionDeclaration ps b"] traverseList_run[where p = "FunctionDeclaration ps b"])
next
  case (VariableDeclarator d init)
  then show ?case
    by (cases init)
       (simp_all add: traverse.simps[of "VariableDeclarator _ _"] run_simps visit_run[where p = "VariableDeclarator d init"])
next
  case (StringLiteral s)
  show ?case by simp
next
  case (Other k cs)
  then show ?case
    by (simp add: traverse.simps[of "Other _ _"] run_simps
          traverseList_run[where p = "Other k cs"])
qed

lemma findTopmostJSX_run: "findTopmostJSX (fst (run n st)) st' = findTopmostJSX n st'"
  by (simp add: findTopmostJSX_def traverse_run)

lemma length_runList: "length (fst (runList xs st)) = length xs"
  by (induction xs arbitrary: st) (simp_all add: run_simps)

lemma has_attribute_runList:
  "list_ex isFilePathAttribute (fst (runList xs st)) = list_ex isFilePathAttribute xs"
  by (induction xs arbitrary: st) (simp_all add: run_simps run_head)

lemma runList_append:
  "runList (xs @ ys) st =
     (fst (runList xs st) @ fst (runList ys (snd (runList xs st))),
      snd (runList ys (snd (runList xs st))))"
  by (induction xs arbitrary: st) (simp_all add: run_simps)

lemma runList_pushed:
  "runList (drop (length as) (JSXOpeningElement_visitor st i as)) st' =
     (drop (length as) (JSXOpeningElement_visitor st i as), st')"
  by (simp add: JSXOpeningElement_visitor_def)

lemma visitor_settled:
  assumes "list_ex isFilePathAttribute as2 = list_ex isFilePathAttribute as"
  shows "JSXOpeningElement_visitor st i (as2 @ drop (length as) (JSXOpeningElement_visitor st i as))
     = as2 @ drop (length as) (JSXOpeningElement_visitor st i as)"
  using assms by (simp add: JSXOpeningElement_visitor_def)

lemma runList_idem:
  assumes "\<And>x st. x \<in> set xs \<Longrightarrow> run (fst (run x st)) st = run x st"
  shows "runList (fst (runList xs st)) st = runList xs st"
  using assms
proof (induction xs arbitrary: st)
  case Nil
  show ?case by simp
next
  case (Cons x xs)
  then show ?case by (simp add: case_prod_beta)
qed

lemma run_idem: "run (fst (run n st)) st = run n st"
proof (induction n arbitrary: st)
  case (JSXElement i nm as cs)
  let ?as2 = "fst (runList as st)" and ?st2 = "snd (runList as st)"
  let ?pushed = "drop (length as) (JSXOpeningElement_visitor st i as)"
  have 1: "runList ?as2 st = runList as st" using JSXElement(1) by (rule runList_idem)
  have 2: "runList (fst (runList cs ?st2)) ?st2 = runList cs ?st2"
    using JSXElement(2) by (rule runList_idem)
  have 3: "runList (?as2 @ ?pushed) st = (?as2 @ ?pushed, ?st2)"
    by (simp add: runList_append 1 runList_pushed)
  have 4: "JSXOpeningElement_visitor st i (?as2 @ ?pushed) = ?as2 @ ?pushed"
    by (rule visitor_settled) (rule has_attribute_runList)
  show ?case
    by (simp add: case_prod_beta Let_def 2 3 4 del: drop_append)
next
  case (JSXFragment cs)
  then show ?case by (simp add: case_prod_beta runList_idem)
next
  case (JSXExpressionContainer e)
  then show ?case by (simp add: case_prod_beta)
next
  case (JSXAttribute nm v)
  then show ?case by (cases v) (simp_all add: case_prod_beta)
next
  case (LogicalExpression op l r)
  then show ?case by (simp add: case_prod_beta)
next
  case (ConditionalExpression c x y)
  then show ?case by (simp add: case_prod_beta)
next
  case (ReturnStatement a)
  then show ?case by (cases a) (simp_all add: case_prod_beta)
next
  case (ArrowFunctionExpression ps b)
  then show ?case by (simp add: case_prod_beta runList_idem)
next
  case (FunctionExpression ps b)
  then show ?case by (simp add: case_prod_beta runList_idem)
next
  case (FunctionDeclaration ps b)
  let ?f = "FunctionDeclaration ps b"
  let ?st1 = "findTopmostJSX ?f st"
  have "findTopmostJSX (fst (run ?f st)) st = ?st1" by (rule findTopmostJSX_run)
  then have 1: "findTopmostJSX
     (FunctionDeclaration (fst (runList ps ?st1)) (fst (run b (snd (runList ps ?st1))))) st = ?st1"
    by (simp add: case_prod_beta)
  have 2: "runList (fst (runList ps ?st1)) ?st1 = runList ps ?st1"
    using FunctionDeclaration(1) by (rule runList_idem)
  show ?case
    by (simp add: case_prod_beta 1 2 FunctionDeclaration(2))
next
  case (VariableDeclarator d init)
  show ?case
  proof (cases init)
    case None
    then show ?thesis using VariableDeclarator by (simp add: case_prod_beta)
  next
    case (Some x)
    let ?v = "VariableDeclarator d (Some x)"
    let ?st1 = "VariableDeclarator_visitor ?v x st"
    let ?d2 = "fst (run d ?st1)" and ?x2 = "fst (run x (snd (run d ?st1)))"
    have "findTopmostJSX (fst (run ?v st)) st = findTopmostJSX ?v st"
      by (rule findTopmostJSX_run)
    then have "findTopmostJSX (VariableDeclarator ?d2 (Some ?x2)) st = findTopmostJSX ?v st"
      by (simp add: case_prod_beta)
    then have 1: "VariableDeclarator_visitor (VariableDeclarator ?d2 (Some ?x2)) ?x2 st = ?st1"
      by (cases "isFunctionInit x") (simp_all add: VariableDeclarator_visitor_def run_head)
    from Some have x: "x \<in> set_option init" by simp
    show ?thesis
      using Some by (simp add: case_prod_beta 1 VariableDeclarator(1) VariableDeclarator(2)[OF x])
  qed
next
  case (StringLiteral s)
  show ?case by simp
next
  case (Other k cs)
  then show ?case by (simp add: case_prod_beta runList_idem)
qed

lemma plugin_idem: "plugin opts (fst (plugin opts p)) = plugin opts p"
  by (simp add: plugin_def run_idem)

text \<open>
  The marks of a component are identities of opening tags inside it. In a tree with
  distinct identities, a tag is therefore marked before the traversal of the file enters
  it or never, and the plugin returns what one pass of the injector with the final set
  returns.
\<close>

lemma ids_descendantsList:
  "concat (map own_id (descendantsList cs)) = idsList cs"
  by (induction cs) (simp_all add: idsList_def ids_def)

lemma ids_children: "ids n = own_id n @ idsList (children n)"
  by (simp add: ids_def descendants.simps[of n] ids_descendantsList)

lemma idsList_simps [simp]:
  "idsList [] = []"
  "idsList (c # cs) = ids c @ idsList cs"
  "idsList (xs @ ys) = idsList xs @ idsList ys"
  by (simp_all add: idsList_def)

lemma element_tag_ids: "set (element_tag x) \<subseteq> set (ids x)"
  by (cases x) (simp_all add: ids_children)

lemma rightmost_ids: "set (element_tag (rightmost_operand e)) \<subseteq> set (ids e)"
proof (induction e rule: rightmost_operand.induct)
  case (1 op l r)
  then show ?case by (auto simp: ids_children)
qed (simp_all add: ids_children)

lemma expression_tags_ids: "set (expression_tags e) \<subseteq> set (ids e)"
proof (cases e)
  case (LogicalExpression op l r)
  then show ?thesis using rightmost_ids[of r] by (auto simp: ids_children)
next
  case (ConditionalExpression c x y)
  then show ?thesis
    using element_tag_ids[of x] element_tag_ids[of y] by (auto simp: ids_children)
qed (simp_all add: ids_children)

lemma qualifying_tags_ids: "set (qualifying_tags c) \<subseteq> set (ids c)"
proof (cases c)
  case (JSXExpressionContainer e)
  then show ?thesis using expression_tags_ids[of e] by (simp add: ids_children)
qed (simp_all add: ids_children)

lemma qualifying_tags_idsList: "set (concat (map qualifying_tags cs)) \<subseteq> set (idsList cs)"
  using qualifying_tags_ids by (induction cs) auto

lemma return_tags_ids: "set (return_tags a) \<subseteq> set (ids a)"
proof (cases a)
  case (JSXFragment cs)
  then show ?thesis using qualifying_tags_idsList[of cs] by (simp add: ids_children)
qed (simp_all add: ids_children)

lemma visit_ids:
  "topmostElements (snd (visit p c sc)) \<subseteq> topmostElements (snd sc) \<union> set (ids c)"
proof (cases c)
  case (ReturnStatement a)
  then show ?thesis
    using return_tags_ids
    by (cases a) (auto simp: ReturnStatement_visitor_def returnSite_marked ids_children)
next
  case (ArrowFunctionExpression ps b)
  then show ?thesis
    using return_tags_ids[of b]
    by (auto simp: ArrowFunctionExpression_visitor_def returnSite_marked ids_children)
next
  case (JSXExpressionContainer e)
  then show ?thesis
    using expression_tags_ids[of e]
    by (auto simp: JSXExpressionContainer_visitor_def propValue_extend extend_def ids_children)
qed simp_all

lemma traverse_ids:
  "topmostElements (snd (traverse n sc)) \<subseteq> topmostElements (snd sc) \<union> set (idsList (children n))"
  "topmostElements (snd (traverseList p cs sc)) \<subseteq> topmostElements (snd sc) \<union> set (idsList cs)"
proof (induction n sc and p cs sc rule: traverse_traverseList.induct)
  case (1 n sc)
  then show ?case by (simp add: traverse.simps)
next
  case (2 parent sc)
  show ?case by simp
next
  case (3 parent c cs sc)
  have "set (idsList (children c)) \<subseteq> set (ids c)" by (simp add: ids_children)
  with 3 visit_ids[of parent c sc] show ?case by auto
qed

lemma marks_ids: "marks n \<subseteq> set (ids n)"
  using traverse_ids(1)[of n "(False, \<lparr>topmostElements = {}, filePath = []\<rparr>)"]
  by (auto simp: marks_def findTopmostJSX_def ids_children)

lemma collected_ids:
  "collected n \<subseteq> set (ids n)"
  "collectedList cs \<subseteq> set (idsList cs)"
proof (induction n and cs rule: descendants_descendantsList.induct)
  case (1 n)
  then show ?case
    using marks_ids[of n] by (auto simp: collected_children[of n] ids_children[of n])
next
  case 2
  show ?case by simp
next
  case (3 c cs)
  then show ?case by auto
qed

lemma inject_list:
  assumes "distinct (idsList xs)"
    and "filePath S = filePath st"
    and "\<forall>j \<in> set (idsList xs). j \<in> topmostElements S \<longleftrightarrow> j \<in> topmostElements st \<union> collectedList xs"
    and "\<And>x st. x \<in> set xs \<Longrightarrow> distinct (ids x) \<Longrightarrow> filePath S = filePath st \<Longrightarrow>
      \<forall>j \<in> set (ids x). j \<in> topmostElements S \<longleftrightarrow> j \<in> topmostElements st \<union> collected x \<Longrightarrow>
      fst (run x st) = inject S x"
  shows "fst (runList xs st) = map (inject S) xs"
  using assms
proof (induction xs arbitrary: st)
  case Nil
  show ?case by simp
next
  case (Cons x xs)
  have d: "distinct (ids x)" "distinct (idsList xs)" "set (ids x) \<inter> set (idsList xs) = {}"
    using Cons.prems(1) by auto
  have cx: "collected x \<subseteq> set (ids x)" and cxs: "collectedList xs \<subseteq> set (idsList xs)"
    by (rule collected_ids)+
  have 1: "\<forall>j \<in> set (ids x). j \<in> topmostElements S \<longleftrightarrow> j \<in> topmostElements st \<union> collected x"
    using Cons.prems(3) d(3) cxs by auto
  have 2: "\<forall>j \<in> set (idsList xs). j \<in> topmostElements S \<longleftrightarrow>
      j \<in> topmostElements (snd (run x st)) \<union> collectedList xs"
    using Cons.prems(3) by (auto simp: run_state grow_def)
  have 3: "filePath S = filePath (snd (run x st))"
    using Cons.prems(2) by (simp add: run_state grow_def)
  have "fst (run x st) = inject S x"
    using Cons.prems(4)[of x st] d(1) Cons.prems(2) 1 by simp
  moreover have "fst (runList xs (snd (run x st))) = map (inject S) xs"
    using Cons.IH[OF d(2) 3 2] Cons.prems(4) by simp
  ultimately show ?case by (simp add: case_prod_beta)
qed

lemma visitor_cong:
  "filePath S = filePath st \<Longrightarrow> (i \<in> topmostElements S) = (i \<in> topmostElements st) \<Longrightarrow>
   JSXOpeningElement_visitor st i as = JSXOpeningElement_visitor S i as"
  by (simp add: JSXOpeningElement_visitor_def)

lemma children_inject:
  assumes d: "distinct (ids n)"
    and f: "filePath S = filePath st"
    and a: "\<forall>j \<in> set (ids n). (j \<in> topmostElements S) = (j \<in> topmostElements st \<union> collected n)"
    and IH: "\<And>x st. x \<in> set (children n) \<Longrightarrow> distinct (ids x) \<Longrightarrow> filePath S = filePath st \<Longrightarrow>
      \<forall>j \<in> set (ids x). (j \<in> topmostElements S) = (j \<in> topmostElements st \<union> collected x) \<Longrightarrow>
      fst (run x st) = inject S x"
  shows "fst (runList (children n) (enter n st)) = map (inject S) (children n)"
proof (rule inject_list)
  show "distinct (idsList (children n))" using d by (simp add: ids_children)
  show "filePath S = filePath (enter n st)" using f by (simp add: enter_def grow_def)
  show "\<forall>j\<in>set (idsList (children n)). (j \<in> topmostElements S) =
      (j \<in> topmostElements (enter n st) \<union> collectedList (children n))"
    using a by (auto simp: ids_children[of n] collected_children[of n] enter_def grow_def)
  show "\<And>x st. x \<in> set (children n) \<Longrightarrow> distinct (ids x) \<Longrightarrow> filePath S = filePath st \<Longrightarrow>
      \<forall>j \<in> set (ids x). (j \<in> topmostElements S) = (j \<in> topmostElements st \<union> collected x) \<Longrightarrow>
      fst (run x st) = inject S x"
    by (rule IH)
qed

lemma enter_component:
  "enter (FunctionDeclaration ps b) st = findTopmostJSX (FunctionDeclaration ps b) st"
  "enter (VariableDeclarator d (Some x)) st =
     VariableDeclarator_visitor (VariableDeclarator d (Some x)) x st"
  by (simp_all add: enter_def findTopmostJSX_marks grow_def VariableDeclarator_visitor_def)

lemma run_inject_step:
  assumes d: "distinct (ids n)"
    and f: "filePath S = filePath st"
    and a: "\<forall>j \<in> set (ids n). (j \<in> topmostElements S) = (j \<in> topmostElements st \<union> collected n)"
    and IH: "\<And>x st. x \<in> set (children n) \<Longrightarrow> distinct (ids x) \<Longrightarrow> filePath S = filePath st \<Longrightarrow>
      \<forall>j \<in> set (ids x). (j \<in> topmostElements S) = (j \<in> topmostElements st \<union> collected x) \<Longrightarrow>
      fst (run x st) = inject S x"
  shows "fst (run n st) = inject S n"
proof -
  have ch: "fst (runList (children n) (enter n st)) = map (inject S) (children n)"
    using d f a IH by (rule children_inject)
  show ?thesis
  proof (cases n)
    case (JSXElement i nm as cs)
    from ch have ch': "fst (runList as st) = map (inject S) as"
      "fst (runList cs (snd (runList as st))) = map (inject S) cs"
      unfolding JSXElement by (simp_all add: enter_def runList_append length_runList)
    have "collected n \<subseteq> set (idsList as @ idsList cs)"
      using collected_ids(2)[of "as @ cs"] unfolding JSXElement
      by (simp add: collected_children[of "JSXElement i nm as cs"])
    moreover have "i \<notin> set (idsList as @ idsList cs)"
      using d unfolding JSXElement by (simp add: ids_children[of "JSXElement i nm as cs"])
    ultimately have "i \<notin> collected n" by blast
    then have "(i \<in> topmostElements S) = (i \<in> topmostElements st)"
      using a unfolding JSXElement by (simp add: ids_children[of "JSXElement i nm as cs"])
    with f have v: "JSXOpeningElement_visitor st i as = JSXOpeningElement_visitor S i as"
      by (rule visitor_cong)
    show ?thesis unfolding JSXElement by (simp add: case_prod_beta ch' v)
  next
    case (JSXFragment cs)
    with ch show ?thesis by (simp add: enter_def case_prod_beta)
  next
    case (JSXExpressionContainer e)
    with ch show ?thesis by (simp add: enter_def case_prod_beta)
  next
    case (JSXAttribute nm v)
    with ch show ?thesis by (cases v) (simp_all add: enter_def case_prod_beta)
  next
    case (LogicalExpression op l r)
    with ch show ?thesis by (simp add: enter_def case_prod_beta)
  next
    case (ConditionalExpression c x y)
    with ch show ?thesis by (simp add: enter_def case_prod_beta)
  next
    case (ReturnStatement v)
    with ch show ?thesis by (cases v) (simp_all add: enter_def case_prod_beta)
  next
    case (ArrowFunctionExpression ps b)
    with ch show ?thesis
      by (simp add: enter_def case_prod_beta runList_append length_runList)
  next
    case (FunctionExpression ps b)
    with ch show ?thesis
      by (simp add: enter_def case_prod_beta runList_append length_runList)
  next
    case (FunctionDeclaration ps b)
    with ch show ?thesis
      by (simp add: enter_component case_prod_beta runList_append length_runList)
  next
    case (VariableDeclarator d' init)
    show ?thesis
    proof (cases init)
      case None
      with ch VariableDeclarator show ?thesis by (simp add: enter_def case_prod_beta)
    next
      case (Some x)
      with ch VariableDeclarator show ?thesis by (simp add: enter_component case_prod_beta)
    qed
  next
    case (StringLiteral s)
    then show ?thesis by simp
  next
    case (Other k cs)
    with ch show ?thesis by (simp add: enter_def case_prod_beta)
  qed
qed

lemma run_inject:
  "distinct (ids n) \<Longrightarrow> filePath S = filePath st \<Longrightarrow>
   \<forall>j \<in> set (ids n). (j \<in> topmostElements S) = (j \<in> topmostElements st \<union> collected n) \<Longrightarrow>
   fst (run n st) = inject S n"
proof (induction n arbitrary: st rule: measure_induct_rule[where f = size])
  case (less n)
  show ?case
    using less.prems
  proof (rule run_inject_step)
    fix x st
    assume "x \<in> set (children n)"
    then have "size x < size n" by (rule size_children)
    then show "distinct (ids x) \<Longrightarrow> filePath S = filePath st \<Longrightarrow>
      \<forall>j \<in> set (ids x). (j \<in> topmostElements S) = (j \<in> topmostElements st \<union> collected x) \<Longrightarrow>
      fst (run x st) = inject S x"
      by (rule less.IH)
  qed
qed

lemma plugin_inject:
  assumes "distinct (ids p)"
  shows "fst (plugin opts p) = inject (snd (plugin opts p)) p"
  unfolding plugin_def
proof (rule run_inject[OF assms])
  show "filePath (snd (run p (Program_enter opts))) = filePath (Program_enter opts)"
    by (simp add: run_state grow_def)
  show "\<forall>j\<in>set (ids p). (j \<in> topmostElements (snd (run p (Program_enter opts)))) =
      (j \<in> topmostElements (Program_enter opts) \<union> collected p)"
    by (simp add: run_state grow_def)
qed

text \<open>The plugin gives no opening tag a second attribute named \<^verbatim>\<open>__file-path\<close>.\<close>

lemma duplicate_free_descendantsList:
  "list_all (\<lambda>x. tag_count x \<le> 1) (descendantsList cs) = list_all duplicate_free cs"
  by (induction cs) (simp_all add: duplicate_free_def del: One_nat_def)

lemma duplicate_free_children:
  "duplicate_free n = (tag_count n \<le> 1 \<and> list_all duplicate_free (children n))"
  by (simp add: duplicate_free_def descendants.simps[of n] duplicate_free_descendantsList
        del: One_nat_def)

lemma count_runList:
  "length (filter isFilePathAttribute (fst (runList xs st))) = length (filter isFilePathAttribute xs)"
  by (induction xs arbitrary: st) (simp_all add: run_simps run_head)

lemma duplicate_free_runList:
  assumes "\<And>x st. x \<in> set xs \<Longrightarrow> duplicate_free x \<Longrightarrow> duplicate_free (fst (run x st))"
    and "list_all duplicate_free xs"
  shows "list_all duplicate_free (fst (runList xs st))"
  using assms by (induction xs arbitrary: st) (simp_all add: case_prod_beta)

lemma duplicate_free_pushed:
  "list_all duplicate_free (drop (length as) (JSXOpeningElement_visitor st i as))"
  by (simp add: JSXOpeningElement_visitor_def duplicate_free_children)

lemma count_visitor:
  "length (filter isFilePathAttribute as) \<le> Suc 0 \<Longrightarrow>
   length (filter isFilePathAttribute as) +
     length (filter isFilePathAttribute (drop (length as) (JSXOpeningElement_visitor st i as)))
   \<le> Suc 0"
  by (auto simp: JSXOpeningElement_visitor_def list_ex_iff filter_empty_conv)

lemma duplicate_free_run: "duplicate_free n \<Longrightarrow> duplicate_free (fst (run n st))"
proof (induction n arbitrary: st)
  case (JSXElement i nm as cs)
  let ?n = "JSXElement i nm as cs"
  from JSXElement.prems have c: "length (filter isFilePathAttribute as) \<le> 1"
    and a: "list_all duplicate_free as" and b: "list_all duplicate_free cs"
    by (simp_all add: duplicate_free_children[of ?n])
  have "list_all duplicate_free (fst (runList as st))"
    using JSXElement.IH(1) a by (rule duplicate_free_runList)
  moreover have "list_all duplicate_free (fst (runList cs (snd (runList as st))))"
    using JSXElement.IH(2) b by (rule duplicate_free_runList)
  ultimately show ?case
    using c by (simp add: case_prod_beta duplicate_free_children[of "JSXElement _ _ _ _"]
        duplicate_free_pushed count_visitor count_runList)
next
  case (JSXFragment cs)
  then show ?case
    by (simp add: case_prod_beta duplicate_free_children[of "JSXFragment _"] duplicate_free_runList)
next
  case (JSXExpressionContainer e)
  then show ?case
    by (simp add: case_prod_beta duplicate_free_children[of "JSXExpressionContainer _"])
next
  case (JSXAttribute nm v)
  then show ?case
    by (cases v) (simp_all add: case_prod_beta duplicate_free_children[of "JSXAttribute _ _"])
next
  case (LogicalExpression op l r)
  then show ?case
    by (simp add: case_prod_beta duplicate_free_children[of "LogicalExpression _ _ _"])
next
  case (ConditionalExpression c x y)
  then show ?case
    by (simp add: case_prod_beta duplicate_free_children[of "ConditionalExpression _ _ _"])
next
  case (ReturnStatement a)
  then show ?case
    by (cases a) (simp_all add: case_prod_beta duplicate_free_children[of "ReturnStatement _"])
next
  case (ArrowFunctionExpression ps b)
  then show ?case
    by (simp add: case_prod_beta duplicate_free_children[of "ArrowFunctionExpression _ _"]
          duplicate_free_runList)
next
  case (FunctionExpression ps b)
  then show ?case
    by (simp add: case_prod_beta duplicate_free_children[of "FunctionExpression _ _"]
          duplicate_free_runList)
next
  case (FunctionDeclaration ps b)
  then show ?case
    by (simp add: case_prod_beta duplicate_free_children[of "FunctionDeclaration _ _"]
          duplicate_free_runList)
next
  case (VariableDeclarator d init)
  then show ?case
    by (cases init)
       (simp_all add: case_prod_beta duplicate_free_children[of "VariableDeclarator _ _"])
next
  case (StringLiteral s)
  then show ?case by simp
next
  case (Other k cs)
  then show ?case
    by (simp add: case_prod_beta duplicate_free_children[of "Other _ _"] duplicate_free_runList)
qed

lemma duplicate_free_plugin: "duplicate_free p \<Longrightarrow> duplicate_free (fst (plugin opts p))"
  by (simp add: plugin_def duplicate_free_run)

text \<open>Every opening tag in the set that the injector is given carries the attribute after it.\<close>

lemma tagged_descendantsList:
  "list_all (carries i) (descendantsList cs) = list_all (tagged i) cs"
  by (induction cs) (simp_all add: tagged_def)

lemma tagged_children: "tagged i n = (carries i n \<and> list_all (tagged i) (children n))"
  by (simp add: tagged_def descendants.simps[of n] tagged_descendantsList)

lemma inject_head: "isFilePathAttribute (inject st a) = isFilePathAttribute a"
proof (cases a)
  case (JSXAttribute nm v)
  then show ?thesis by (cases nm) simp_all
qed simp_all

lemma has_attribute_inject:
  "list_ex isFilePathAttribute (map (inject st) as) = list_ex isFilePathAttribute as"
  by (induction as) (simp_all add: inject_head)

lemma tagged_pushed:
  "list_all (tagged i) (drop (length as) (JSXOpeningElement_visitor st j as))"
  by (simp add: JSXOpeningElement_visitor_def tagged_children)

lemma carries_pushed:
  "i \<in> topmostElements st \<Longrightarrow>
   list_ex isFilePathAttribute as \<or>
   list_ex isFilePathAttribute (drop (length as) (JSXOpeningElement_visitor st i as))"
  by (simp add: JSXOpeningElement_visitor_def)

lemma tagged_inject: "i \<in> topmostElements st \<Longrightarrow> tagged i (inject st n)"
proof (induction n)
  case (JSXElement j nm as cs)
  then show ?case
    using carries_pushed[of i st as]
    by (auto simp: tagged_children[of i "JSXElement _ _ _ _"] list_all_iff tagged_pushed[unfolded list_all_iff]
          has_attribute_inject)
next
  case (JSXAttribute nm v)
  then show ?case by (cases v) (simp_all add: tagged_children[of i "JSXAttribute _ _"])
next
  case (ReturnStatement a)
  then show ?case by (cases a) (simp_all add: tagged_children[of i "ReturnStatement _"])
next
  case (VariableDeclarator d init)
  then show ?case by (cases init) (simp_all add: tagged_children[of i "VariableDeclarator _ _"])
next
  case (JSXFragment cs)
  then show ?case by (simp add: tagged_children[of i "JSXFragment _"] list_all_iff)
next
  case (JSXExpressionContainer e)
  then show ?case by (simp add: tagged_children[of i "JSXExpressionContainer _"])
next
  case (LogicalExpression op l r)
  then show ?case by (simp add: tagged_children[of i "LogicalExpression _ _ _"])
next
  case (ConditionalExpression c x y)
  then show ?case by (simp add: tagged_children[of i "ConditionalExpression _ _ _"])
next
  case (ArrowFunctionExpression ps b)
  then show ?case by (simp add: tagged_children[of i "ArrowFunctionExpression _ _"] list_all_iff)
next
  case (FunctionExpression ps b)
  then show ?case by (simp add: tagged_children[of i "FunctionExpression _ _"] list_all_iff)
next
  case (FunctionDeclaration ps b)
  then show ?case by (simp add: tagged_children[of i "FunctionDeclaration _ _"] list_all_iff)
next
  case (StringLiteral s)
  then show ?case by (simp add: tagged_children[of i "StringLiteral _"])
next
  case (Other k cs)
  then show ?case by (simp add: tagged_children[of i "Other _ _"] list_all_iff)
qed

lemma tagged_plugin:
  "distinct (ids p) \<Longrightarrow> i \<in> topmostElements (snd (plugin opts p)) \<Longrightarrow>
   tagged i (fst (plugin opts p))"
  by (simp add: plugin_inject tagged_inject)

section \<open>The attribute injector (\<^verbatim>\<open>JSXOpeningElement\<close>)\<close>

text \<open>
  Claim C10. The visitor leaves the attributes of an opening tag that is not in the set as
  they are. For a tag in the set without the attribute, the result is the old list with
  one attribute more at its end. In every case the old attributes are a prefix of the
  result and at most one attribute is added. On a whole file whose opening tags have
  distinct identities, the tree the plugin returns is the tree that one pass of the injector
  of section 4.6 returns from the final set: nothing but attribute lists of opening tags
  differs from the input.
\<close>

theorem C10_injector_frame:
  "(i \<notin> topmostElements st \<longrightarrow> JSXOpeningElement_visitor st i as = as)
   \<and> (i \<in> topmostElements st \<and> \<not> list_ex isFilePathAttribute as \<longrightarrow>
        JSXOpeningElement_visitor st i as = as @
          [JSXAttribute (JSXIdentifier ''__file-path'')
             (Some (StringLiteral (if filePath st = [] then ''unknown'' else filePath st)))])
   \<and> take (length as) (JSXOpeningElement_visitor st i as) = as
   \<and> length (JSXOpeningElement_visitor st i as) \<le> Suc (length as)
   \<and> (distinct (ids p) \<longrightarrow> fst (plugin opts p) = inject (snd (plugin opts p)) p)"
  using plugin_inject[of p opts] by (simp add: JSXOpeningElement_visitor_def)

theorem C10_injector_frame_witness:
  "JSXOpeningElement_visitor \<lparr>topmostElements = {1}, filePath = ''src/App.tsx''\<rparr> 2 [className ''btn'']
    = [className ''btn'']
   \<and> JSXOpeningElement_visitor \<lparr>topmostElements = {1}, filePath = ''src/App.tsx''\<rparr> 1 [className ''btn'']
    = [className ''btn'', file_path ''src/App.tsx'']
   \<and> fst (plugin (Some (Some ''/app/src/Panel.tsx'')) (Panel [] []))
    = inject (snd (plugin (Some (Some ''/app/src/Panel.tsx'')) (Panel [] []))) (Panel [] [])"
proof -
  let ?st = "\<lparr>topmostElements = {1::nat}, filePath = ''src/App.tsx''\<rparr>"
  let ?as = "[className ''btn'']"
  let ?opts = "Some (Some ''/app/src/Panel.tsx'')"
  have 1: "2 \<notin> topmostElements ?st" by simp
  have 2: "1 \<in> topmostElements ?st \<and> \<not> list_ex isFilePathAttribute ?as"
    by (simp add: className_def)
  have 3: "distinct (ids (Panel [] []))"
    by (simp add: Panel_def ids_def descendants.simps)
  note th = C10_injector_frame[of _ ?st ?as "Panel [] []" ?opts]
  from 1 th[of 2] have "JSXOpeningElement_visitor ?st 2 ?as = ?as" by blast
  moreover from 2 th[of 1]
  have "JSXOpeningElement_visitor ?st 1 ?as = ?as @
          [JSXAttribute (JSXIdentifier ''__file-path'')
             (Some (StringLiteral (if filePath ?st = [] then ''unknown'' else filePath ?st)))]"
    by blast
  moreover from 3 th[of 1]
  have "fst (plugin ?opts (Panel [] [])) = inject (snd (plugin ?opts (Panel [] []))) (Panel [] [])"
    by blast
  ultimately show ?thesis by (simp add: file_path_def)
qed

lemma count_pushed:
  "length (filter isFilePathAttribute (JSXOpeningElement_visitor st i as)) =
     (if i \<in> topmostElements st \<and> \<not> list_ex isFilePathAttribute as then 1
      else length (filter isFilePathAttribute as))"
  by (auto simp: JSXOpeningElement_visitor_def list_ex_iff filter_empty_conv)

lemma has_pushed:
  "i \<in> topmostElements st \<Longrightarrow> list_ex isFilePathAttribute (JSXOpeningElement_visitor st i as)"
  by (simp add: JSXOpeningElement_visitor_def)

text \<open>
  Claim C8. The visitor changes nothing on a tag that carries an attribute named
  \<^verbatim>\<open>__file-path\<close>; entered twice on a tag, in the same state or, for a marked tag, in any
  second state, it gives what the first entry gave; and a tag that had at most one such
  attribute has at most one after two entries. On a whole file, the plugin run on the tree
  that it returned returns that tree and the same state again, and a tree in which no tag has
  two such attributes is still one after two runs.
\<close>

theorem C8_injector_idempotent:
  "(list_ex isFilePathAttribute as \<longrightarrow> JSXOpeningElement_visitor st i as = as)
   \<and> JSXOpeningElement_visitor st i (JSXOpeningElement_visitor st i as) =
       JSXOpeningElement_visitor st i as
   \<and> (i \<in> topmostElements st \<longrightarrow>
        JSXOpeningElement_visitor st' i (JSXOpeningElement_visitor st i as) =
          JSXOpeningElement_visitor st i as)
   \<and> (length (filter isFilePathAttribute as) \<le> 1 \<longrightarrow>
        length (filter isFilePathAttribute
          (JSXOpeningElement_visitor st' i (JSXOpeningElement_visitor st i as))) \<le> 1)
   \<and> plugin opts (fst (plugin opts p)) = plugin opts p
   \<and> (duplicate_free p \<longrightarrow> duplicate_free (fst (plugin opts (fst (plugin opts p)))))"
proof (intro conjI impI)
  show "JSXOpeningElement_visitor st i (JSXOpeningElement_visitor st i as) =
       JSXOpeningElement_visitor st i as"
    by (cases "i \<in> topmostElements st") (simp_all add: has_pushed visitor_present visitor_unmarked)
next
  assume "length (filter isFilePathAttribute as) \<le> 1"
  then show "length (filter isFilePathAttribute
          (JSXOpeningElement_visitor st' i (JSXOpeningElement_visitor st i as))) \<le> 1"
    by (simp add: count_pushed)
next
  show "plugin opts (fst (plugin opts p)) = plugin opts p" by (rule plugin_idem)
next
  assume "duplicate_free p"
  then show "duplicate_free (fst (plugin opts (fst (plugin opts p))))"
    by (simp add: plugin_idem duplicate_free_plugin)
qed (simp_all add: has_pushed visitor_present)

theorem C8_injector_idempotent_witness:
  "JSXOpeningElement_visitor \<lparr>topmostElements = {1}, filePath = ''src/B.tsx''\<rparr> 1
     (JSXOpeningElement_visitor \<lparr>topmostElements = {1}, filePath = ''src/App.tsx''\<rparr> 1 [])
    = [file_path ''src/App.tsx'']
   \<and> length (filter isFilePathAttribute
        (JSXOpeningElement_visitor \<lparr>topmostElements = {1}, filePath = ''src/B.tsx''\<rparr> 1
           (JSXOpeningElement_visitor \<lparr>topmostElements = {1}, filePath = ''src/App.tsx''\<rparr> 1 [])))
      \<le> 1
   \<and> duplicate_free (fst (plugin (Some (Some ''/app/src/Panel.tsx''))
        (fst (plugin (Some (Some ''/app/src/Panel.tsx'')) (Panel [] [])))))"
proof -
  let ?st = "\<lparr>topmostElements = {1::nat}, filePath = ''src/App.tsx''\<rparr>"
  let ?st' = "\<lparr>topmostElements = {1::nat}, filePath = ''src/B.tsx''\<rparr>"
  let ?opts = "Some (Some ''/app/src/Panel.tsx'')"
  note th = C8_injector_idempotent[of "[]" ?st 1 ?st' ?opts "Panel [] []"]
  have 1: "1 \<in> topmostElements ?st" by simp
  have 2: "length (filter isFilePathAttribute []) \<le> 1" by simp
  have 3: "duplicate_free (Panel [] [])"
    by (simp add: duplicate_free_def Panel_def descendants.simps)
  from th 1 have "JSXOpeningElement_visitor ?st' 1 (JSXOpeningElement_visitor ?st 1 []) =
      JSXOpeningElement_visitor ?st 1 []" by blast
  moreover from th 2 have "length (filter isFilePathAttribute
      (JSXOpeningElement_visitor ?st' 1 (JSXOpeningElement_visitor ?st 1 []))) \<le> 1" by blast
  moreover from th 3
  have "duplicate_free (fst (plugin ?opts (fst (plugin ?opts (Panel [] [])))))" by blast
  ultimately show ?thesis by (simp add: JSXOpeningElement_visitor_def file_path_def)
qed

section \<open>Fragments\<close>

lemmas visitor_defs =
  plugin_def Program_enter_def substring_def findTopmostJSX_def traverse.simps
  ReturnStatement_visitor_def ArrowFunctionExpression_visitor_def
  JSXExpressionContainer_visitor_def VariableDeclarator_visitor_def
  JSXOpeningElement_visitor_def add_def className_def file_path_def

text \<open>
  On two components of the README the plugin gives the output that the README shows: the
  returned \<^verbatim>\<open>button\<close> of \<open>Button\<close> is tagged, and both the element and the element under
  the nested conjunction in the fragment of \<open>FloatingButton\<close>.
\<close>

lemma readme_Button:
  "plugin (Some (Some ''/home/me/app/src/components/ui/Button.tsx''))
     (Button [className ''btn'',
              JSXAttribute (JSXIdentifier ''onClick'') (Some (JSXExpressionContainer (Other ''Identifier'' [])))])
   = (Button [className ''btn'',
              JSXAttribute (JSXIdentifier ''onClick'') (Some (JSXExpressionContainer (Other ''Identifier'' []))),
              file_path ''src/components/ui/Button.tsx''],
      \<lparr>topmostElements = {1}, filePath = ''src/components/ui/Button.tsx''\<rparr>)"
  by (simp add: visitor_defs Button_def)

lemma readme_FloatingButton:
  "plugin (Some (Some ''/home/me/app/src/FloatingButton.tsx'')) (FloatingButton [] [])
   = (FloatingButton [file_path ''src/FloatingButton.tsx''] [file_path ''src/FloatingButton.tsx''],
      \<lparr>topmostElements = {1, 2}, filePath = ''src/FloatingButton.tsx''\<rparr>)"
  by (simp add: visitor_defs FloatingButton_def insert_commute)

text \<open>
  What the fragment branch does when it is entered. A return site entered with the flag
  down, whose expression is a fragment, adds to the set the tags of all qualifying
  top-level children of the fragment, and nothing else. Each of these tags is in the set
  from then on, and the opening-element visitor, entered in any later state of the same
  file with a tag that does not carry the attribute yet, pushes the attribute with the one
  path value of the file. In the tree that the plugin returns for a file with distinct
  identities, every opening tag in the final set carries the attribute.
\<close>

lemma fragment_children_marked:
  "topmostElements (snd (ReturnStatement_visitor (Some (JSXFragment cs)) (False, st))) =
     topmostElements st \<union> set (concat (map qualifying_tags cs))
   \<and> topmostElements (snd (ArrowFunctionExpression_visitor (JSXFragment cs) (False, st))) =
     topmostElements st \<union> set (concat (map qualifying_tags cs))
   \<and> (\<forall>c \<in> set cs. \<forall>i \<in> set (qualifying_tags c).
        i \<in> topmostElements (snd (tagFragmentChildren (JSXFragment cs) sc))
        \<and> (\<forall>st' as. topmostElements (snd (tagFragmentChildren (JSXFragment cs) sc)) \<subseteq> topmostElements st'
              \<and> filePath st' = filePath (snd sc) \<and> \<not> list_ex isFilePathAttribute as \<longrightarrow>
            JSXOpeningElement_visitor st' i as = as @
              [JSXAttribute (JSXIdentifier ''__file-path'')
                 (Some (StringLiteral
                    (if filePath (snd sc) = [] then ''unknown'' else filePath (snd sc))))]))
   \<and> (distinct (ids p) \<and> j \<in> topmostElements (snd (plugin opts p)) \<longrightarrow>
        tagged j (fst (plugin opts p)))"
proof (intro conjI ballI allI impI)
  fix c i and st' :: plugin_state and as
  assume c: "c \<in> set cs" and i: "i \<in> set (qualifying_tags c)"
  then show in_set: "i \<in> topmostElements (snd (tagFragmentChildren (JSXFragment cs) sc))"
    by (auto simp: fold_tagChild_marked)
  assume "topmostElements (snd (tagFragmentChildren (JSXFragment cs) sc)) \<subseteq> topmostElements st'
     \<and> filePath st' = filePath (snd sc) \<and> \<not> list_ex isFilePathAttribute as"
  with in_set show "JSXOpeningElement_visitor st' i as = as @
              [JSXAttribute (JSXIdentifier ''__file-path'')
                 (Some (StringLiteral
                    (if filePath (snd sc) = [] then ''unknown'' else filePath (snd sc))))]"
    using visitor_push[of i st' as] by auto
next
  assume "distinct (ids p) \<and> j \<in> topmostElements (snd (plugin opts p))"
  then show "tagged j (fst (plugin opts p))" by (simp add: tagged_plugin)
qed (simp_all add: ReturnStatement_visitor_def ArrowFunctionExpression_visitor_def
       fold_tagChild_marked)

section \<open>Programs\<close>

text \<open>
  The guard of the two return-site visitors: with the flag up they do nothing. A return
  statement reached with the flag down raises it exactly when it marks a tag, through a
  single element or through a child of a fragment.
\<close>

lemma found_skips:
  "fst sc \<Longrightarrow> ReturnStatement_visitor a sc = sc"
  "fst sc \<Longrightarrow> ArrowFunctionExpression_visitor b sc = sc"
  by (simp_all add: ReturnStatement_visitor_def ArrowFunctionExpression_visitor_def)

lemma return_site_raises:
  "fst (ReturnStatement_visitor (Some a) (False, st)) = (return_tags a \<noteq> [])"
  by (simp add: ReturnStatement_visitor_def returnSite_marked marked_def)

text \<open>
  Claim C1 (the code departs from it). On the sample of the repository's test script, a
  component with a loading-state return and a main return, the plugin tags the first
  returned element only: the guard \<^verbatim>\<open>if (foundTopmost) return;\<close> of the
  \<^verbatim>\<open>ReturnStatement\<close> visitor skips the second return statement.
\<close>

theorem C1_only_first_return_tagged:
  "plugin (Some (Some ''/test/src/pages/books/index/MyBooks.tsx''))
     (Index [className ''container''] [className ''container mx-auto p-6 space-y-6''])
   = (Index [className ''container'', file_path ''src/pages/books/index/MyBooks.tsx'']
            [className ''container mx-auto p-6 space-y-6''],
      \<lparr>topmostElements = {1}, filePath = ''src/pages/books/index/MyBooks.tsx''\<rparr>)"
  by (simp add: visitor_defs Index_def)

text \<open>
  Claim C2 (the code departs from it). \<^verbatim>\<open>tagFragmentChildren\<close> raises the flag with every
  child it tags, so after a fragment with a qualifying child the same guard skips the
  return statement that follows: the element \<^verbatim>\<open>Details\<close> of \<open>Panel\<close> is not tagged.
\<close>

theorem C2_return_after_fragment_not_tagged:
  "plugin (Some (Some ''/app/src/Panel.tsx'')) (Panel [] [])
   = (Panel [file_path ''src/Panel.tsx''] [],
      \<lparr>topmostElements = {1}, filePath = ''src/Panel.tsx''\<rparr>)"
  by (simp add: visitor_defs Panel_def)

text \<open>
  Claim C5 (the code departs from it). The claim is about every fragment at a return site.
  A fragment at a return statement that follows a return statement which has tagged an
  element is not entered: the same guard skips it. In \<open>Layout\<close> the element
  \<^verbatim>\<open>Spinner\<close> is tagged, and none of the three children of the fragment is marked or
  receives the attribute.
\<close>

theorem C5_fragment_after_return_not_tagged:
  "plugin (Some (Some ''/app/src/Layout.tsx'')) (Layout [])
   = (Layout [file_path ''src/Layout.tsx''],
      \<lparr>topmostElements = {1}, filePath = ''src/Layout.tsx''\<rparr>)"
  by (simp add: visitor_defs Layout_def)

text \<open>
  Claim C3 (the code departs from it). A ternary as the body of an arrow function or as
  the argument of a return statement is neither an element nor a fragment: the return-site
  visitors mark neither branch, and the plugin returns the tree as it was.
\<close>

theorem C3_ternary_return_not_tagged:
  "plugin (Some (Some ''/app/src/components/Status.tsx'')) StatusArrow
     = (StatusArrow, \<lparr>topmostElements = {}, filePath = ''src/components/Status.tsx''\<rparr>)
   \<and> plugin (Some (Some ''/app/src/components/Status.tsx'')) StatusBlock
     = (StatusBlock, \<lparr>topmostElements = {}, filePath = ''src/components/Status.tsx''\<rparr>)"
  by (simp add: visitor_defs StatusArrow_def StatusBlock_def)

text \<open>
  Claim C4, as stated, fails: the visitor for prop values is one of the visitors of
  \<^verbatim>\<open>findTopmostJSX\<close> and runs below components only. On \<^verbatim>\<open>wrappedCode\<close> of the test
  script, where the element is a prop value outside every component, nothing is marked.
\<close>

theorem C4_prop_value_outside_component:
  "plugin (Some (Some ''/test/src/App.tsx'')) wrappedCode
     = (wrappedCode, \<lparr>topmostElements = {}, filePath = ''src/App.tsx''\<rparr>)"
  by (simp add: visitor_defs wrappedCode_def)

lemma outside_components:
  assumes "\<forall>c \<in> set (p # descendants p). isComponent c \<longrightarrow> i \<notin> set (ids c)"
  shows "i \<notin> topmostElements (snd (plugin opts p))"
proof
  assume "i \<in> topmostElements (snd (plugin opts p))"
  then have "i \<in> collected p" by (simp add: plugin_state)
  then obtain c where "c \<in> set (p # descendants p)" "isComponent c" "i \<in> marks c"
    unfolding collected_def by (auto split: if_splits)
  with marks_ids[of c] assms show False by blast
qed

text \<open>
  Claim C4, amended. On a container that is the value of an attribute the visitor adds the
  tags its expression resolves to (direct element, conjunction chain, both branches of a
  ternary) and leaves the flag as it is. For every attribute below a component \<open>c\<close> of the
  program whose value is such a container, these tags are in the set after
  \<^verbatim>\<open>findTopmostJSX\<close> on \<open>c\<close>, from any state, and in the set the plugin ends with. An
  opening tag that lies in no component of the program is never marked.
\<close>

theorem C4_prop_values_in_components:
  "JSXExpressionContainer_visitor (JSXAttribute nm v) e sc =
     (fst sc, (snd sc)\<lparr>topmostElements := topmostElements (snd sc) \<union> set (expression_tags e)\<rparr>)
   \<and> (isComponent c \<and> c \<in> set (p # descendants p)
        \<and> JSXAttribute nm (Some (JSXExpressionContainer e)) \<in> set (descendants c) \<longrightarrow>
      set (expression_tags e) \<subseteq> topmostElements (findTopmostJSX c st)
      \<and> set (expression_tags e) \<subseteq> topmostElements (snd (plugin opts p)))
   \<and> ((\<forall>c \<in> set (p # descendants p). isComponent c \<longrightarrow> i \<notin> set (ids c)) \<longrightarrow>
        i \<notin> topmostElements (snd (plugin opts p)))"
proof (intro conjI impI)
  show "JSXExpressionContainer_visitor (JSXAttribute nm v) e sc =
     (fst sc, (snd sc)\<lparr>topmostElements := topmostElements (snd sc) \<union> set (expression_tags e)\<rparr>)"
    by (simp add: JSXExpressionContainer_visitor_def propValue_extend extend_def)
next
  assume a: "isComponent c \<and> c \<in> set (p # descendants p)
        \<and> JSXAttribute nm (Some (JSXExpressionContainer e)) \<in> set (descendants c)"
  then have m: "set (expression_tags e) \<subseteq> marks c" using prop_marks by blast
  then show "set (expression_tags e) \<subseteq> topmostElements (findTopmostJSX c st)"
    by (auto simp: findTopmostJSX_marks)
  from a have "marks c \<subseteq> collected p" using component_collected by blast
  with m show "set (expression_tags e) \<subseteq> topmostElements (snd (plugin opts p))"
    by (simp add: plugin_state)
next
  assume "\<forall>c \<in> set (p # descendants p). isComponent c \<longrightarrow> i \<notin> set (ids c)"
  then show "i \<notin> topmostElements (snd (plugin opts p))" by (rule outside_components)
qed

theorem C4_prop_values_in_components_witness:
  "3 \<in> topmostElements (findTopmostJSX (Routes []) \<lparr>topmostElements = {}, filePath = ''src/App.tsx''\<rparr>)
   \<and> 3 \<in> topmostElements (snd (plugin (Some (Some ''/test/src/App.tsx'')) (Other ''Program'' [Routes []])))
   \<and> 3 \<notin> topmostElements (snd (plugin (Some (Some ''/test/src/App.tsx''))
        (Other ''Program'' [Other ''ExpressionStatement'' [
           JSXElement 2 ''Route''
             [JSXAttribute (JSXIdentifier ''element'')
                (Some (JSXExpressionContainer (JSXElement 3 ''Screen'' [] [])))] []]])))"
proof -
  let ?e = "JSXElement 3 ''Screen'' [] []"
  let ?st = "\<lparr>topmostElements = {}, filePath = ''src/App.tsx''\<rparr>"
  let ?opts = "Some (Some ''/test/src/App.tsx'')"
  let ?q = "Other ''Program'' [Other ''ExpressionStatement'' [
           JSXElement 2 ''Route''
             [JSXAttribute (JSXIdentifier ''element'') (Some (JSXExpressionContainer ?e))] []]]"
  have 1: "isComponent (Routes [])
      \<and> Routes [] \<in> set (Other ''Program'' [Routes []] # descendants (Other ''Program'' [Routes []]))
      \<and> JSXAttribute (JSXIdentifier ''element'') (Some (JSXExpressionContainer ?e))
          \<in> set (descendants (Routes []))"
    by (simp add: Routes_def descendants.simps)
  have 2: "\<forall>c \<in> set (?q # descendants ?q). isComponent c \<longrightarrow> 3 \<notin> set (ids c)"
    by (simp add: descendants.simps)
  from 1 C4_prop_values_in_components[of "JSXIdentifier ''element''" _ ?e _ "Routes []"
      "Other ''Program'' [Routes []]" ?st ?opts]
  have "set (expression_tags ?e) \<subseteq> topmostElements (findTopmostJSX (Routes []) ?st)
    \<and> set (expression_tags ?e) \<subseteq>
      topmostElements (snd (plugin ?opts (Other ''Program'' [Routes []])))"
    by blast
  moreover from 2 C4_prop_values_in_components[where p = ?q and i = 3 and opts = ?opts]
  have "3 \<notin> topmostElements (snd (plugin ?opts ?q))" by blast
  ultimately show ?thesis by simp
qed

end
